theory Spec2Isabelle
  imports Complex_Main
begin

section \<open>Tensors, errors and indexing\<close>

text \<open>
  The model follows \<^verbatim>\<open>src/distillation/models/modeling_distilroberta.py\<close>.
  A tensor of shape (batch, sequence, features) is a list of examples, each a list of
  positions, each a list of features. Exceptions of the source are error values.
\<close>

type_synonym 'a tensor3 = "'a list list list"

datatype error =
    ValueError string
  | AssertionError
  | KeyError
  | IndexError
  | RuntimeError
  | TypeError
  | AttributeError
  | ZeroDivisionError

text \<open>The size of the last dimension of a (rectangular) tensor.\<close>

definition last_dim :: "'a tensor3 \<Rightarrow> nat" where
  "last_dim t = (case t of [] \<Rightarrow> 0 | e # _ \<Rightarrow> (case e of [] \<Rightarrow> 0 | r # _ \<Rightarrow> length r))"

text \<open>
  Python's slice bounds on a dimension of size \<open>n\<close>: a negative bound counts from the
  end, and every bound is clipped to the dimension.
\<close>

definition slice_bound :: "nat \<Rightarrow> int \<Rightarrow> nat" where
  "slice_bound n i = nat (if i < 0 then max (i + int n) 0 else min i (int n))"

text \<open>
  \<^verbatim>\<open>t[mask]\<close> with a boolean mask over (batch, sequence): the mask must have the shape of
  the leading dimensions; the selected positions come out in row-major order.
\<close>

definition same_leading :: "'a tensor3 \<Rightarrow> bool list list \<Rightarrow> bool" where
  "same_leading t msk = (map length t = map length msk)"

definition select_rows :: "'a tensor3 \<Rightarrow> bool list list \<Rightarrow> 'a list list" where
  "select_rows t msk = map fst (filter snd (zip (concat t) (concat msk)))"

definition index_mask :: "'a tensor3 \<Rightarrow> bool list list \<Rightarrow> error + 'a list list" where
  "index_mask t msk = (if same_leading t msk then Inr (select_rows t msk) else Inl IndexError)"

definition count_true :: "bool list list \<Rightarrow> nat" where
  "count_true msk = length (filter id (concat msk))"

text \<open>
  The value of an indexed assignment is broadcast to the shape of the indexed region,
  \<open>k\<close> rows of width \<open>w\<close>: a dimension of the value is kept when it has the region's
  size, repeated when it has size one, and is a shape mismatch otherwise.
\<close>

definition broadcast_values :: "nat \<Rightarrow> nat \<Rightarrow> nat \<Rightarrow> 'a list list \<Rightarrow> error + 'a list list" where
  "broadcast_values k w w' vs =
     (if (length vs = k \<or> length vs = 1) \<and> (w' = w \<or> w' = 1)
      then Inr (map (\<lambda>v. if w' = w then v else replicate w (hd v))
                    (if length vs = k then vs else replicate k (hd vs)))
      else Inl RuntimeError)"

definition put_row :: "nat \<Rightarrow> nat \<Rightarrow> 'a list \<Rightarrow> 'a list \<Rightarrow> 'a list" where
  "put_row lo w v r = take lo r @ v @ drop (lo + w) r"

text \<open>
  Writing the value rows, in order, into the columns \<open>lo ..< lo + w\<close> of the positions the
  mask selects; the rows not yet used are handed to the next example.
\<close>

fun scatter_seq :: "nat \<Rightarrow> nat \<Rightarrow> 'a list list \<Rightarrow> bool list \<Rightarrow> 'a list list \<Rightarrow> 'a list list \<times> 'a list list" where
  "scatter_seq lo w (r # rs) (b # bs) vs =
     (if b then
        (case vs of
           [] \<Rightarrow> (r # rs, [])
         | v # vs' \<Rightarrow> (case scatter_seq lo w rs bs vs' of (rs', rest) \<Rightarrow> (put_row lo w v r # rs', rest)))
      else (case scatter_seq lo w rs bs vs of (rs', rest) \<Rightarrow> (r # rs', rest)))"
| "scatter_seq lo w rs bs vs = (rs, vs)"

fun scatter :: "nat \<Rightarrow> nat \<Rightarrow> 'a tensor3 \<Rightarrow> bool list list \<Rightarrow> 'a list list \<Rightarrow> 'a tensor3" where
  "scatter lo w (e # es) (m # ms) vs =
     (case scatter_seq lo w e m vs of (e', rest) \<Rightarrow> e' # scatter lo w es ms rest)"
| "scatter lo w es ms vs = es"

text \<open>
  \<^verbatim>\<open>hidden_state[..., start_index:stop_index][mask] = value\<close>, where \<open>w'\<close> is the last
  dimension of the value.
\<close>

definition setitem_cols ::
  "'a tensor3 \<Rightarrow> int \<Rightarrow> int \<Rightarrow> bool list list \<Rightarrow> nat \<Rightarrow> 'a list list \<Rightarrow> error + 'a tensor3" where
  "setitem_cols hidden_state start_index stop_index msk w' val =
     (let n = last_dim hidden_state;
          lo = slice_bound n start_index;
          hi = slice_bound n stop_index;
          w = hi - lo
      in if \<not> same_leading hidden_state msk then Inl IndexError
         else (case broadcast_values (count_true msk) w w' val of
                 Inl e \<Rightarrow> Inl e
               | Inr vs \<Rightarrow> Inr (scatter lo w hidden_state msk vs)))"

section \<open>The interchange in Transformer.forward\<close>

text \<open>
  A variable is the tuple (key of the stored activations, head index, slice); the slice
  has the fields \<^verbatim>\<open>start\<close> and \<^verbatim>\<open>stop\<close> of a Python slice.
\<close>

record py_slice =
  start :: int
  stop :: int

type_synonym 'k variable = "'k \<times> int \<times> py_slice"

datatype 'k names = Embeddings | Names "nat \<rightharpoonup> 'k variable list"

text \<open>One pass of the body of \<^verbatim>\<open>for interchanged_variable in variable_names[i]\<close>.\<close>

definition interchange ::
  "int \<Rightarrow> ('k \<rightharpoonup> 'a tensor3) \<Rightarrow> bool list list \<Rightarrow> bool list list \<Rightarrow> 'a tensor3 \<Rightarrow> 'k variable
     \<Rightarrow> error + 'a tensor3" where
  "interchange head_dimension interchanged_variables interchange_mask dual_interchange_mask
       hidden_state interchanged_variable =
     (case interchanged_variables (fst interchanged_variable) of
        None \<Rightarrow> Inl KeyError
      | Some interchanged_activations \<Rightarrow>
          (let start_index = fst (snd interchanged_variable) * head_dimension
                               + start (snd (snd interchanged_variable));
               stop_index = start_index + stop (snd (snd interchanged_variable))
           in case index_mask interchanged_activations dual_interchange_mask of
                Inl e \<Rightarrow> Inl e
              | Inr replacing_activations \<Rightarrow>
                  setitem_cols hidden_state start_index stop_index interchange_mask
                    (last_dim interchanged_activations) replacing_activations))"

fun interchange_all ::
  "int \<Rightarrow> ('k \<rightharpoonup> 'a tensor3) \<Rightarrow> bool list list \<Rightarrow> bool list list \<Rightarrow> 'k variable list \<Rightarrow> 'a tensor3
     \<Rightarrow> error + 'a tensor3" where
  "interchange_all hdim ivs im dm [] hidden_state = Inr hidden_state"
| "interchange_all hdim ivs im dm (v # vs) hidden_state =
     (case interchange hdim ivs im dm hidden_state v of
        Inl e \<Rightarrow> Inl e
      | Inr hidden_state' \<Rightarrow> interchange_all hdim ivs im dm vs hidden_state')"

text \<open>
  The test \<^verbatim>\<open>variable_names != None and variable_names != "embeddings" and i in variable_names\<close>
  and the block under it, for layer \<open>i\<close>.
\<close>

definition interchange_at ::
  "int \<Rightarrow> ('k \<rightharpoonup> 'a tensor3) option \<Rightarrow> 'k names option \<Rightarrow> bool list list \<Rightarrow> bool list list
     \<Rightarrow> nat \<Rightarrow> 'a tensor3 \<Rightarrow> error + 'a tensor3" where
  "interchange_at hdim interchanged_variables variable_names im dm i hidden_state =
     (case variable_names of
        None \<Rightarrow> Inr hidden_state
      | Some Embeddings \<Rightarrow> Inr hidden_state
      | Some (Names vn) \<Rightarrow>
          (case vn i of
             None \<Rightarrow> Inr hidden_state
           | Some vars \<Rightarrow>
               (case interchanged_variables of
                  None \<Rightarrow> Inl AssertionError
                | Some ivs \<Rightarrow> interchange_all hdim ivs im dm vars hidden_state)))"

text \<open>
  A transformer block is a parameter: the attention and feed-forward kernels are outside
  this development. It maps the attention mask and the hidden state to the attention
  weights and the block's output; the entry of the head mask for the layer is part of
  the function.
\<close>

type_synonym ('a, 'w) block = "bool list list \<Rightarrow> 'a tensor3 \<Rightarrow> 'w \<times> 'a tensor3"

record ('a, 'w) Transformer =
  layer :: "('a, 'w) block list"
  head_dimension :: int

type_synonym ('a, 'w) encoder_output = "'a tensor3 \<times> 'a tensor3 list option \<times> 'w list option"

text \<open>The loop \<^verbatim>\<open>for i, layer_module in enumerate(self.layer)\<close>, from index \<open>i\<close> on.\<close>

fun forward_layers ::
  "int \<Rightarrow> bool list list \<Rightarrow> ('k \<rightharpoonup> 'a tensor3) option \<Rightarrow> 'k names option \<Rightarrow> bool list list
     \<Rightarrow> bool list list \<Rightarrow> nat \<Rightarrow> ('a, 'w) block list \<Rightarrow> 'a tensor3 \<Rightarrow> 'a tensor3 list option
     \<Rightarrow> 'w list option \<Rightarrow> error + ('a, 'w) encoder_output" where
  "forward_layers hdim attn_mask ivs vn im dm i [] hidden_state all_hidden_states all_attentions =
     Inr (hidden_state, map_option (\<lambda>s. s @ [hidden_state]) all_hidden_states, all_attentions)"
| "forward_layers hdim attn_mask ivs vn im dm i (layer_module # rest) hidden_state
       all_hidden_states all_attentions =
     (let all_hidden_states' = map_option (\<lambda>s. s @ [hidden_state]) all_hidden_states;
          layer_outputs = layer_module attn_mask hidden_state
      in case interchange_at hdim ivs vn im dm i (snd layer_outputs) of
           Inl e \<Rightarrow> Inl e
         | Inr hidden_state' \<Rightarrow>
             forward_layers hdim attn_mask ivs vn im dm (Suc i) rest hidden_state'
               all_hidden_states' (map_option (\<lambda>s. s @ [fst layer_outputs]) all_attentions))"

definition Transformer_forward ::
  "('a, 'w) Transformer \<Rightarrow> 'a tensor3 \<Rightarrow> bool list list \<Rightarrow> bool \<Rightarrow> bool
     \<Rightarrow> ('k \<rightharpoonup> 'a tensor3) option \<Rightarrow> 'k names option \<Rightarrow> bool list list \<Rightarrow> bool list list
     \<Rightarrow> error + ('a, 'w) encoder_output" where
  "Transformer_forward self x attn_mask output_attentions output_hidden_states
       interchanged_variables variable_names interchange_mask dual_interchange_mask =
     forward_layers (head_dimension self) attn_mask interchanged_variables variable_names
       interchange_mask dual_interchange_mask 0 (layer self) x
       (if output_hidden_states then Some [] else None)
       (if output_attentions then Some [] else None)"

section \<open>DistilRobertaModel.forward\<close>

record ('a, 'w) DistilRobertaModel =
  embeddings :: "int list list \<Rightarrow> 'a tensor3"
  transformer :: "('a, 'w) Transformer"
  config_output_attentions :: bool
  config_output_hidden_states :: bool

definition DistilRobertaModel_forward ::
  "('a, 'w) DistilRobertaModel \<Rightarrow> int list list option \<Rightarrow> bool list list option
     \<Rightarrow> 'a tensor3 option \<Rightarrow> bool option \<Rightarrow> bool option
     \<Rightarrow> ('k \<rightharpoonup> 'a tensor3) option \<Rightarrow> 'k names option \<Rightarrow> bool list list \<Rightarrow> bool list list
     \<Rightarrow> error + ('a, 'w) encoder_output" where
  "DistilRobertaModel_forward self input_ids attention_mask inputs_embeds output_attentions
       output_hidden_states interchanged_variables variable_names interchange_mask
       dual_interchange_mask =
     (let output_attentions' =
            (case output_attentions of Some b \<Rightarrow> b | None \<Rightarrow> config_output_attentions self);
          output_hidden_states' =
            (case output_hidden_states of Some b \<Rightarrow> b | None \<Rightarrow> config_output_hidden_states self)
      in case (input_ids, inputs_embeds) of
           (Some ids, Some embeds) \<Rightarrow>
             Inl (ValueError ''You cannot specify both input_ids and inputs_embeds at the same time'')
         | (None, None) \<Rightarrow>
             Inl (ValueError ''You have to specify either input_ids or inputs_embeds'')
         | (Some ids, None) \<Rightarrow>
             Transformer_forward (transformer self) (embeddings self ids)
               (case attention_mask of Some m \<Rightarrow> m | None \<Rightarrow> map (map (\<lambda>_. True)) ids)
               output_attentions' output_hidden_states'
               interchanged_variables variable_names interchange_mask dual_interchange_mask
         | (None, Some embeds) \<Rightarrow>
             Transformer_forward (transformer self) embeds
               (case attention_mask of Some m \<Rightarrow> m | None \<Rightarrow> map (map (\<lambda>_. True)) embeds)
               output_attentions' output_hidden_states'
               interchanged_variables variable_names interchange_mask dual_interchange_mask)"

section \<open>The loss functions of DistilRobertaForMaskedLM\<close>

text \<open>
  Losses are computed in exact real arithmetic. A loss is a number or NaN, the value of
  the division \<open>0 / 0\<close> that a mean over no element performs, and of every operation on
  logits divided by a temperature of zero.
\<close>

datatype fl = Num real | NaN

definition fl_times :: "fl \<Rightarrow> real \<Rightarrow> fl" where
  "fl_times a c = (case a of Num x \<Rightarrow> Num (x * c) | NaN \<Rightarrow> NaN)"

text \<open>The quotient \<open>sm / n\<close> of a sum \<open>sm\<close> over \<open>n\<close> elements by their number.\<close>

definition mean_of :: "real \<Rightarrow> nat \<Rightarrow> fl" where
  "mean_of sm n = (if n = 0 then NaN else Num (sm / real n))"

definition log_softmax :: "real list \<Rightarrow> real list" where
  "log_softmax xs = map (\<lambda>x. x - ln (\<Sum>y\<leftarrow>xs. exp y)) xs"

definition softmax :: "real list \<Rightarrow> real list" where
  "softmax xs = map (\<lambda>x. exp x / (\<Sum>y\<leftarrow>xs. exp y)) xs"

definition xlogy :: "real \<Rightarrow> real \<Rightarrow> real" where
  "xlogy x y = (if x = 0 then 0 else x * ln y)"

text \<open>
  \<^verbatim>\<open>nn.KLDivLoss(reduction="batchmean")\<close>: the pointwise terms
  \<open>target * (log target - input)\<close>, summed and divided by the size of the first dimension.
\<close>

definition ce_loss_fct :: "real list list \<Rightarrow> real list list \<Rightarrow> fl" where
  "ce_loss_fct input target =
     mean_of (\<Sum>(i, t)\<leftarrow>zip (concat input) (concat target). xlogy t t - t * i) (length input)"

text \<open>
  \<^verbatim>\<open>nn.CrossEntropyLoss(ignore_index=-100)\<close> (the default of \<^verbatim>\<open>mlm_loss_fct\<close> too): the
  mean, over the targets other than -100, of the negated log-probability of the target.
\<close>

definition lm_loss_fct :: "real list list \<Rightarrow> int list \<Rightarrow> error + fl" where
  "lm_loss_fct input target =
     (if length input \<noteq> length target then Inl (ValueError ''Expected input batch_size to match target batch_size'')
      else if list_ex (\<lambda>(x, t). t \<noteq> - 100 \<and> \<not> (0 \<le> t \<and> t < int (length x))) (zip input target)
      then Inl IndexError
      else (let kept = filter (\<lambda>(x, t). t \<noteq> - 100) (zip input target)
            in Inr (mean_of (\<Sum>(x, t)\<leftarrow>kept. - (log_softmax x ! nat t)) (length kept))))"

definition mlm_loss_fct :: "real list list \<Rightarrow> int list \<Rightarrow> error + fl" where
  "mlm_loss_fct = lm_loss_fct"

text \<open>\<^verbatim>\<open>nn.MSELoss(reduction="sum")\<close>.\<close>

definition mse_loss_fct :: "real list list \<Rightarrow> real list list \<Rightarrow> real" where
  "mse_loss_fct input target = (\<Sum>(i, t)\<leftarrow>zip (concat input) (concat target). (i - t)\<^sup>2)"

text \<open>
  \<^verbatim>\<open>nn.CosineEmbeddingLoss(reduction="mean")\<close> for targets that are all 1: the mean of
  one minus the cosine similarity of the paired rows.
\<close>

definition cosine_similarity :: "real list \<Rightarrow> real list \<Rightarrow> real" where
  "cosine_similarity x1 x2 =
     (\<Sum>(a, b)\<leftarrow>zip x1 x2. a * b)
       / sqrt (((\<Sum>a\<leftarrow>x1. a\<^sup>2) + 1 / 10 ^ 12) * ((\<Sum>b\<leftarrow>x2. b\<^sup>2) + 1 / 10 ^ 12))"

definition cosine_loss_fct :: "real list list \<Rightarrow> real list list \<Rightarrow> fl" where
  "cosine_loss_fct input1 input2 =
     mean_of (\<Sum>(x1, x2)\<leftarrow>zip input1 input2. 1 - cosine_similarity x1 x2) (length input1)"

subsection \<open>Masked selection\<close>

definition size3 :: "'a tensor3 \<Rightarrow> nat \<times> nat \<times> nat" where
  "size3 t = (length t, (case t of [] \<Rightarrow> 0 | e # _ \<Rightarrow> length e), last_dim t)"

text \<open>
  \<^verbatim>\<open>mask.unsqueeze(-1).expand_as(t)\<close>: a dimension of the mask is kept when it has the
  size of the tensor's, repeated when it has size one, and cannot be expanded otherwise;
  then every flag is repeated along the last dimension.
\<close>

definition expand_to :: "nat \<Rightarrow> 'a list \<Rightarrow> 'a list option" where
  "expand_to n xs =
     (if length xs = n then Some xs
      else if length xs = 1 then Some (replicate n (hd xs))
      else None)"

definition expand_mask :: "nat \<Rightarrow> nat \<Rightarrow> bool list list \<Rightarrow> bool list list option" where
  "expand_mask b s msk =
     (case expand_to b msk of
        None \<Rightarrow> None
      | Some rows \<Rightarrow>
          (if list_all (\<lambda>r. length r = s \<or> length r = 1) rows
           then Some (map (\<lambda>r. if length r = s then r else replicate s (hd r)) rows)
           else None))"

definition expand_as :: "bool list list \<Rightarrow> 'a tensor3 \<Rightarrow> error + bool tensor3" where
  "expand_as msk t =
     (case expand_mask (length t) (fst (snd (size3 t))) msk of
        None \<Rightarrow> Inl RuntimeError
      | Some rows \<Rightarrow> Inr (map (map (replicate (last_dim t))) rows))"

definition masked_select :: "'a tensor3 \<Rightarrow> bool tensor3 \<Rightarrow> 'a list" where
  "masked_select t msk = map fst (filter snd (zip (concat (concat t)) (concat (concat msk))))"

text \<open>\<^verbatim>\<open>x.view(-1, n)\<close> on a flat tensor: rows of \<open>n\<close> consecutive elements.\<close>

fun rows_of :: "nat \<Rightarrow> nat \<Rightarrow> 'a list \<Rightarrow> 'a list list" where
  "rows_of 0 n xs = []"
| "rows_of (Suc k) n xs = take n xs # rows_of k n (drop n xs)"

definition view2 :: "nat \<Rightarrow> 'a list \<Rightarrow> error + 'a list list" where
  "view2 n xs =
     (if n = 0 \<or> length xs mod n \<noteq> 0 then Inl RuntimeError else Inr (rows_of (length xs div n) n xs))"

definition err_bind :: "error + 'a \<Rightarrow> ('a \<Rightarrow> error + 'b) \<Rightarrow> error + 'b" where
  "err_bind m f = (case m of Inl e \<Rightarrow> Inl e | Inr x \<Rightarrow> f x)"

text \<open>
  The two statements \<^verbatim>\<open>x_slct = torch.masked_select(x, mask)\<close> and
  \<^verbatim>\<open>x_slct = x_slct.view(-1, n)\<close>.
\<close>

definition slct :: "nat \<Rightarrow> 'a tensor3 \<Rightarrow> bool tensor3 \<Rightarrow> error + 'a list list" where
  "slct n t msk = view2 n (masked_select t msk)"

text \<open>
  The soft-target loss: \<^verbatim>\<open>ce_loss_fct(log_softmax(s / T, dim=-1), softmax(t / T, dim=-1)) * T ** 2\<close>.
\<close>

definition loss_ce :: "real list list \<Rightarrow> real list list \<Rightarrow> real \<Rightarrow> fl" where
  "loss_ce s_logits_slct t_logits_slct temperature =
     (if temperature = 0 then NaN
      else fl_times
             (ce_loss_fct (map (\<lambda>r. log_softmax (map (\<lambda>x. x / temperature) r)) s_logits_slct)
                          (map (\<lambda>r. softmax (map (\<lambda>x. x / temperature) r)) t_logits_slct))
             (temperature\<^sup>2))"

section \<open>DistilRobertaForMaskedLM.forward\<close>

text \<open>
  The keyword arguments of the call. The head mask is part of the blocks; the two
  interchange masks are tensors whenever they are read.
\<close>

record 'k forward_args =
  input_ids :: "int list list option"
  attention_mask :: "bool list list option"
  inputs_embeds :: "real tensor3 option"
  labels :: "int list list option"
  output_attentions :: "bool option"
  output_hidden_states :: "bool option"
  return_dict :: "bool option"
  interchanged_variables :: "('k \<rightharpoonup> real tensor3) option"
  variable_names :: "'k names option"
  interchange_mask :: "bool list list"
  dual_interchange_mask :: "bool list list"
  t_logits :: "real tensor3 option"
  t_hidden_states :: "real tensor3 list option"
  causal_t_logits :: "real tensor3 option"
  causal_t_hidden_states :: "real tensor3 list option"
  s_logits :: "real tensor3 option"
  s_hidden_states :: "real tensor3 list option"
  temperature :: "real option"
  restrict_ce_to_mask :: "bool option"
  lm_labels :: "int list list option"
  alpha_mlm :: real
  alpha_clm :: real
  alpha_mse :: real
  alpha_cos :: real

text \<open>
  The output: the tuple returned when \<^verbatim>\<open>return_dict\<close> is false, or the
  \<^verbatim>\<open>MaskedLMOutput\<close>, whose keys added by item assignment are the map \<open>extra\<close>.
\<close>

record 'w student_outputs =
  loss :: "fl option"
  logits :: "real tensor3"
  hidden_states :: "real tensor3 list option"
  attentions :: "'w list option"
  extra :: "string \<rightharpoonup> fl"

datatype 'w forward_output =
    Tuple "fl option" "real tensor3" "real tensor3 list option" "'w list option"
  | Dict "'w student_outputs"

record 'w DistilRobertaForMaskedLM =
  distilroberta :: "(real, 'w) DistilRobertaModel"
  lm_head :: "real tensor3 \<Rightarrow> real tensor3"
  config_use_return_dict :: bool

text \<open>\<^verbatim>\<open>x.view(-1, n)\<close> on a tensor of three dimensions, and \<^verbatim>\<open>xs[-1]\<close> on a tuple.\<close>

definition view3 :: "nat \<Rightarrow> 'a tensor3 \<Rightarrow> error + 'a list list" where
  "view3 n t = view2 n (concat (concat t))"

definition last_item :: "'a list \<Rightarrow> error + 'a" where
  "last_item xs = (if xs = [] then Inl IndexError else Inr (last xs))"

text \<open>
  The mask of the soft-target loss: \<^verbatim>\<open>(lm_labels > -1)\<close> if \<^verbatim>\<open>restrict_ce_to_mask\<close>,
  the attention mask otherwise, expanded to the logits.
\<close>

definition ce_mask :: "'k forward_args \<Rightarrow> real tensor3 \<Rightarrow> error + bool tensor3" where
  "ce_mask a lgts =
     (if restrict_ce_to_mask a = Some True
      then (case lm_labels a of
              None \<Rightarrow> Inl TypeError
            | Some l \<Rightarrow> expand_as (map (map (\<lambda>x. x > - 1)) l) lgts)
      else (case attention_mask a of
              None \<Rightarrow> Inl AttributeError
            | Some m \<Rightarrow> expand_as m lgts))"

text \<open>The block under \<^verbatim>\<open>if alpha_mlm > 0.0\<close>.\<close>

definition add_loss_mlm ::
  "'k forward_args \<Rightarrow> real tensor3 \<Rightarrow> (string \<rightharpoonup> fl) \<Rightarrow> error + (string \<rightharpoonup> fl)" where
  "add_loss_mlm a s_lgts out =
     (if alpha_mlm a > 0 then
        err_bind (view3 (last_dim s_lgts) s_lgts) (\<lambda>x.
          (case lm_labels a of
             None \<Rightarrow> Inl AttributeError
           | Some l \<Rightarrow>
               err_bind (lm_loss_fct x (concat l)) (\<lambda>loss_mlm.
               Inr (out(''loss_mlm'' \<mapsto> loss_mlm)))))
      else Inr out)"

text \<open>
  The shifted causal-LM cross-entropy, then the block under \<^verbatim>\<open>if alpha_clm > 0.0\<close>,
  which ends with \<^verbatim>\<open>student_outputs["loss_mlm"] = loss_clm\<close>.
\<close>

definition loss_clm :: "real tensor3 \<Rightarrow> int list list \<Rightarrow> error + fl" where
  "loss_clm s_lgts l =
     (let shift_logits = map butlast s_lgts;
          shift_labels = map tl l
      in err_bind (view3 (last_dim s_lgts) shift_logits) (\<lambda>x. lm_loss_fct x (concat shift_labels)))"

definition add_loss_clm ::
  "'k forward_args \<Rightarrow> real tensor3 \<Rightarrow> (string \<rightharpoonup> fl) \<Rightarrow> error + (string \<rightharpoonup> fl)" where
  "add_loss_clm a s_lgts out =
     (if alpha_clm a > 0 then
        (case lm_labels a of
           None \<Rightarrow> Inl TypeError
         | Some l \<Rightarrow> err_bind (loss_clm s_lgts l) (\<lambda>v. Inr (out(''loss_mlm'' \<mapsto> v))))
      else Inr out)"

text \<open>The block under \<^verbatim>\<open>if alpha_mse > 0.0\<close>.\<close>

definition add_loss_mse ::
  "'k forward_args \<Rightarrow> real list list \<Rightarrow> real list list \<Rightarrow> (string \<rightharpoonup> fl) \<Rightarrow> string \<rightharpoonup> fl" where
  "add_loss_mse a s_logits_slct t_logits_slct out =
     (if alpha_mse a > 0
      then out(''loss_mse'' \<mapsto> mean_of (mse_loss_fct s_logits_slct t_logits_slct) (length s_logits_slct))
      else out)"

text \<open>
  The cosine loss of the last hidden states at the positions of the attention mask; it
  is the block under \<^verbatim>\<open>if alpha_cos > 0.0\<close> and the end of the causal branch.
\<close>

definition loss_cos ::
  "'k forward_args \<Rightarrow> real tensor3 list \<Rightarrow> real tensor3 list \<Rightarrow> error + fl" where
  "loss_cos a s_hs t_hs =
     err_bind (last_item s_hs) (\<lambda>s_h.
     err_bind (last_item t_hs) (\<lambda>t_h.
       (case attention_mask a of
          None \<Rightarrow> Inl AttributeError
        | Some m \<Rightarrow>
            err_bind (expand_as m s_h) (\<lambda>msk.
              if size3 s_h \<noteq> size3 t_h then Inl AssertionError
              else err_bind (slct (last_dim s_h) s_h msk) (\<lambda>s_hidden_states_slct.
                   err_bind (slct (last_dim s_h) t_h msk) (\<lambda>t_hidden_states_slct.
                   Inr (cosine_loss_fct s_hidden_states_slct t_hidden_states_slct)))))))"

definition add_loss_cos ::
  "'k forward_args \<Rightarrow> real tensor3 list \<Rightarrow> real tensor3 list \<Rightarrow> (string \<rightharpoonup> fl)
     \<Rightarrow> error + (string \<rightharpoonup> fl)" where
  "add_loss_cos a s_hs t_hs out =
     (if alpha_cos a > 0
      then err_bind (loss_cos a s_hs t_hs) (\<lambda>v. Inr (out(''loss_cos'' \<mapsto> v)))
      else Inr out)"

text \<open>
  The soft-target loss of student and teacher logits of equal size, under the key
  \<open>key\<close>; it returns the selected logits too.
\<close>

definition soft_target ::
  "'k forward_args \<Rightarrow> real tensor3 \<Rightarrow> real tensor3
     \<Rightarrow> error + (fl \<times> real list list \<times> real list list)" where
  "soft_target a s_lgts t_lgts =
     (if size3 s_lgts \<noteq> size3 t_lgts then Inl AssertionError
      else err_bind (ce_mask a s_lgts) (\<lambda>msk.
           err_bind (slct (last_dim s_lgts) s_lgts msk) (\<lambda>s_logits_slct.
           err_bind (slct (last_dim s_lgts) t_lgts msk) (\<lambda>t_logits_slct.
             if length t_logits_slct \<noteq> length s_logits_slct then Inl AssertionError
             else (case temperature a of
                     None \<Rightarrow> Inl TypeError
                   | Some T \<Rightarrow> Inr (loss_ce s_logits_slct t_logits_slct T, s_logits_slct, t_logits_slct))))))"

text \<open>The branch \<^verbatim>\<open>if t_logits is not None\<close> of the non-causal mode.\<close>

definition regular_losses ::
  "'k forward_args \<Rightarrow> real tensor3 \<Rightarrow> real tensor3 list \<Rightarrow> real tensor3 \<Rightarrow> real tensor3 list
     \<Rightarrow> error + (string \<rightharpoonup> fl)" where
  "regular_losses a s_lgts s_hs t_lgts t_hs =
     err_bind (soft_target a s_lgts t_lgts) (\<lambda>(ce, s_logits_slct, t_logits_slct).
     err_bind (add_loss_mlm a s_lgts [''loss_ce'' \<mapsto> ce]) (\<lambda>out1.
     err_bind (add_loss_clm a s_lgts out1) (\<lambda>out2.
     add_loss_cos a s_hs t_hs (add_loss_mse a s_logits_slct t_logits_slct out2))))"

text \<open>The causal mode, the branch \<^verbatim>\<open>else\<close> of \<^verbatim>\<open>if causal_t_logits is None\<close>.\<close>

definition causal_losses ::
  "'k forward_args \<Rightarrow> real tensor3 \<Rightarrow> real tensor3 list option \<Rightarrow> real tensor3
     \<Rightarrow> error + (string \<rightharpoonup> fl)" where
  "causal_losses a causal_s_lgts causal_s_hs causal_t_lgts =
     (if t_logits a = None \<or> t_hidden_states a = None \<or> s_logits a = None
         \<or> s_hidden_states a = None \<or> causal_t_hidden_states a = None
      then Inl AssertionError
      else (case causal_s_hs of
              None \<Rightarrow> Inl KeyError
            | Some s_hs \<Rightarrow>
                err_bind (soft_target a causal_s_lgts causal_t_lgts) (\<lambda>(ce, s_slct, t_slct).
                err_bind (loss_cos a s_hs (the (causal_t_hidden_states a))) (\<lambda>causal_loss_cos.
                Inr [''causal_loss_ce'' \<mapsto> ce, ''causal_loss_cos'' \<mapsto> causal_loss_cos]))))"

definition DistilRobertaForMaskedLM_forward ::
  "'w DistilRobertaForMaskedLM \<Rightarrow> 'k forward_args \<Rightarrow> error + 'w forward_output" where
  "DistilRobertaForMaskedLM_forward self a =
     (let return_dict' = (case return_dict a of Some b \<Rightarrow> b | None \<Rightarrow> config_use_return_dict self)
      in err_bind
           (DistilRobertaModel_forward (distilroberta self) (input_ids a) (attention_mask a)
              (inputs_embeds a) (output_attentions a) (output_hidden_states a)
              (interchanged_variables a) (variable_names a) (interchange_mask a)
              (dual_interchange_mask a))
           (\<lambda>dlbrt_output.
              let prediction_logits = lm_head self (fst dlbrt_output)
              in err_bind
                   (case labels a of
                      None \<Rightarrow> Inr None
                    | Some l \<Rightarrow>
                        err_bind (view3 (last_dim prediction_logits) prediction_logits) (\<lambda>x.
                        err_bind (mlm_loss_fct x (concat l)) (\<lambda>v. Inr (Some v))))
                   (\<lambda>mlm_loss.
                      if \<not> return_dict'
                      then Inr (Tuple mlm_loss prediction_logits (fst (snd dlbrt_output))
                                  (snd (snd dlbrt_output)))
                      else
                        (let student_outputs =
                               \<lparr>loss = mlm_loss, logits = prediction_logits,
                                hidden_states = fst (snd dlbrt_output),
                                attentions = snd (snd dlbrt_output), extra = Map.empty\<rparr>
                         in case causal_t_logits a of
                              None \<Rightarrow>
                                (case t_logits a of
                                   None \<Rightarrow> Inr (Dict student_outputs)
                                 | Some t_lgts \<Rightarrow>
                                     (case t_hidden_states a of
                                        None \<Rightarrow> Inl AssertionError
                                      | Some t_hs \<Rightarrow>
                                          (case hidden_states student_outputs of
                                             None \<Rightarrow> Inl KeyError
                                           | Some s_hs \<Rightarrow>
                                               err_bind
                                                 (regular_losses a prediction_logits s_hs t_lgts t_hs)
                                                 (\<lambda>e. Inr (Dict (student_outputs\<lparr>extra := e\<rparr>))))))
                            | Some causal_t_lgts \<Rightarrow>
                                err_bind
                                  (causal_losses a prediction_logits
                                     (hidden_states student_outputs) causal_t_lgts)
                                  (\<lambda>e. Inr (Dict (student_outputs\<lparr>extra := e\<rparr>)))))))"

section \<open>Sinusoidal position embeddings\<close>

text \<open>
  The table is a parameter of the embedding: its data, rows of positions, and the flag
  that puts it under gradient updates.
\<close>

record 'a parameter =
  data :: "'a list list"
  requires_grad :: bool

text \<open>
  The strided slices \<^verbatim>\<open>xs[off::2]\<close> of a row, read and assigned; on the whole table the
  assigned value is broadcast as in every indexed assignment.
\<close>

fun every_other :: "'a list \<Rightarrow> 'a list" where
  "every_other (x # y # xs) = x # every_other xs"
| "every_other xs = xs"

fun set_every_other :: "'a list \<Rightarrow> 'a list \<Rightarrow> 'a list" where
  "set_every_other (x # y # xs) (v # vs) = v # y # set_every_other xs vs"
| "set_every_other [x] (v # vs) = [v]"
| "set_every_other xs vs = xs"

definition get_stride :: "nat \<Rightarrow> 'a list \<Rightarrow> 'a list" where
  "get_stride off xs = every_other (drop off xs)"

definition set_stride :: "nat \<Rightarrow> 'a list \<Rightarrow> 'a list \<Rightarrow> 'a list" where
  "set_stride off xs vs = take off xs @ set_every_other (drop off xs) vs"

definition ncols :: "'a list list \<Rightarrow> nat" where
  "ncols rows = (case rows of [] \<Rightarrow> 0 | r # _ \<Rightarrow> length r)"

definition setitem_stride :: "nat \<Rightarrow> 'a list list \<Rightarrow> 'a list list \<Rightarrow> error + 'a list list" where
  "setitem_stride off out val =
     (case broadcast_values (length out) (length (get_stride off (replicate (ncols out) ()))) (ncols val) val of
        Inl e \<Rightarrow> Inl e
      | Inr vs \<Rightarrow> Inr (map2 (set_stride off) out vs))"

text \<open>
  \<^verbatim>\<open>_create_sinusoidal_embeddings\<close>, the work of \<^verbatim>\<open>create_sinusoidal_embeddings\<close>
  without DeepSpeed. An array built from no row has one dimension, and its slice
  \<^verbatim>\<open>[:, 0::2]\<close> is an IndexError.
\<close>

definition position_enc :: "nat \<Rightarrow> nat \<Rightarrow> real list list" where
  "position_enc n_pos d =
     map (\<lambda>pos. map (\<lambda>j. real pos / 10000 powr (2 * real (j div 2) / real d)) [0..<d]) [0..<n_pos]"

definition create_sinusoidal_embeddings ::
  "nat \<Rightarrow> nat \<Rightarrow> real parameter \<Rightarrow> error + real parameter" where
  "create_sinusoidal_embeddings n_pos d out =
     (if n_pos = 0 then Inl IndexError
      else
        err_bind (setitem_stride 0 (data out) (map (\<lambda>r. map sin (get_stride 0 r)) (position_enc n_pos d)))
          (\<lambda>d1.
        err_bind (setitem_stride 1 d1 (map (\<lambda>r. map cos (get_stride 1 r)) (position_enc n_pos d)))
          (\<lambda>d2. Inr \<lparr>data = d2, requires_grad = False\<rparr>)))"

section \<open>Head pruning\<close>

text \<open>
  A linear layer: its weight, rows of output features, its bias, and its two sizes.
\<close>

record 'a linear =
  weight :: "'a list list"
  bias :: "'a list option"
  in_features :: nat
  out_features :: nat

text \<open>
  \<^verbatim>\<open>prune_linear_layer(layer, index, dim)\<close>: the layer of the rows (\<open>dim\<close> 0, with the
  entries of the bias) or of the columns (\<open>dim\<close> 1) that the index lists.
\<close>

definition prune_linear_layer :: "'a linear \<Rightarrow> nat list \<Rightarrow> nat \<Rightarrow> error + 'a linear" where
  "prune_linear_layer lyr index d =
     (if d = 0 then
        (if list_all (\<lambda>i. i < out_features lyr) index
         then Inr \<lparr>weight = map (\<lambda>i. weight lyr ! i) index,
                   bias = map_option (\<lambda>b. map (\<lambda>i. b ! i) index) (bias lyr),
                   in_features = in_features lyr, out_features = length index\<rparr>
         else Inl IndexError)
      else
        (if list_all (\<lambda>i. i < in_features lyr) index
         then Inr \<lparr>weight = map (\<lambda>r. map (\<lambda>i. r ! i) index) (weight lyr),
                   bias = bias lyr,
                   in_features = length index, out_features = out_features lyr\<rparr>
         else Inl IndexError))"

text \<open>
  \<^verbatim>\<open>find_pruneable_heads_and_indices\<close>: the heads not pruned yet; a mask of one row per
  remaining head, in which the row of each such head, its index lowered by the number of
  pruned heads before it, is cleared (a negative row counts from the end); and the flat
  indices the mask keeps.
\<close>

definition shifted :: "int set \<Rightarrow> int \<Rightarrow> int" where
  "shifted already_pruned_heads head = head - int (card (Set.filter (\<lambda>h. h < head) already_pruned_heads))"

definition find_pruneable_heads_and_indices ::
  "int list \<Rightarrow> int \<Rightarrow> int \<Rightarrow> int set \<Rightarrow> error + (int set \<times> nat list)" where
  "find_pruneable_heads_and_indices heads n_heads head_size already_pruned_heads =
     (if n_heads < 0 \<or> head_size < 0 then Inl RuntimeError
      else
        (let heads' = set heads - already_pruned_heads;
             rows = shifted already_pruned_heads ` heads'
         in if \<exists>r\<in>rows. r < - n_heads \<or> n_heads \<le> r then Inl IndexError
            else Inr (heads',
                      filter (\<lambda>i. int (i div nat head_size)
                                     \<notin> (\<lambda>r. if r < 0 then r + n_heads else r) ` rows)
                        [0 ..< nat (n_heads * head_size)])))"

text \<open>
  The attention module, with the field \<^verbatim>\<open>dim\<close> under the name \<open>dim'\<close>, and
  \<^verbatim>\<open>prune_heads\<close>: the module after the call and the exception the call raised, if any.
\<close>

record 'a MultiHeadSelfAttention =
  num_attention_heads :: int
  dim' :: int
  q_lin :: "'a linear"
  k_lin :: "'a linear"
  v_lin :: "'a linear"
  out_lin :: "'a linear"
  pruned_heads :: "int set"

definition prune_heads ::
  "'a MultiHeadSelfAttention \<Rightarrow> int list \<Rightarrow> 'a MultiHeadSelfAttention \<times> error option" where
  "prune_heads self heads =
     (if num_attention_heads self = 0 then (self, Some ZeroDivisionError)
      else
        (let attention_head_size = dim' self div num_attention_heads self
         in if length heads = 0 then (self, None)
            else
              (case find_pruneable_heads_and_indices heads (num_attention_heads self)
                      attention_head_size (pruned_heads self) of
                 Inl e \<Rightarrow> (self, Some e)
               | Inr (heads', index) \<Rightarrow>
                   (case prune_linear_layer (q_lin self) index 0 of
                      Inl e \<Rightarrow> (self, Some e)
                    | Inr q \<Rightarrow>
                   (case prune_linear_layer (k_lin self) index 0 of
                      Inl e \<Rightarrow> (self\<lparr>q_lin := q\<rparr>, Some e)
                    | Inr k \<Rightarrow>
                   (case prune_linear_layer (v_lin self) index 0 of
                      Inl e \<Rightarrow> (self\<lparr>q_lin := q, k_lin := k\<rparr>, Some e)
                    | Inr v \<Rightarrow>
                   (case prune_linear_layer (out_lin self) index 1 of
                      Inl e \<Rightarrow> (self\<lparr>q_lin := q, k_lin := k, v_lin := v\<rparr>, Some e)
                    | Inr ol \<Rightarrow>
                        (self\<lparr>q_lin := q, k_lin := k, v_lin := v, out_lin := ol,
                              num_attention_heads := num_attention_heads self - int (card heads'),
                              dim' := attention_head_size
                                        * (num_attention_heads self - int (card heads')),
                              pruned_heads := pruned_heads self \<union> heads'\<rparr>, None))))))))"

section \<open>Predicates of the statements\<close>

definition all_false :: "bool list list \<Rightarrow> bool" where
  "all_false msk = list_all (list_all Not) msk"





text \<open>A tensor is rectangular: every example and every position has the size of the first.\<close>

definition rect3 :: "'a tensor3 \<Rightarrow> bool" where
  "rect3 t =
     list_all (\<lambda>e. length e = fst (snd (size3 t)) \<and> list_all (\<lambda>r. length r = last_dim t) e) t"

text \<open>
  The soft-target loss in the words of the specification: the Kullback-Leibler divergence
  of the teacher's distribution from the student's, both softmax of logits divided by the
  temperature, summed over the positions the mask selects, divided by their number and
  multiplied by the square of the temperature; over no position the mean is NaN. The
  mask marks the positions that hold a gold label if \<^verbatim>\<open>restrict_ce_to_mask\<close> is true,
  and is the attention mask otherwise; it is expanded to the batch and sequence sizes of
  the logits.
\<close>

definition kl_divergence :: "real list \<Rightarrow> real list \<Rightarrow> real" where
  "kl_divergence p q = (\<Sum>(pi, qi)\<leftarrow>zip p q. pi * ln (pi / qi))"

definition selection_mask :: "'k forward_args \<Rightarrow> bool list list option" where
  "selection_mask a =
     (if restrict_ce_to_mask a = Some True
      then map_option (map (map (\<lambda>l. 0 \<le> l))) (lm_labels a)
      else attention_mask a)"

definition spec_soft_target_loss ::
  "real tensor3 \<Rightarrow> real tensor3 \<Rightarrow> bool list list \<Rightarrow> real \<Rightarrow> fl" where
  "spec_soft_target_loss student teacher msk T =
     (let s_sel = select_rows student msk; t_sel = select_rows teacher msk
      in if length s_sel = 0 then NaN
         else Num ((\<Sum>(s, t)\<leftarrow>zip s_sel t_sel.
                       kl_divergence (softmax (map (\<lambda>x. x / T) t)) (softmax (map (\<lambda>x. x / T) s)))
                     / real (length s_sel) * T\<^sup>2))"

text \<open>The loss stored under a key of the returned mapping, and the returned logits.\<close>

definition loss_term :: "string \<Rightarrow> error + 'w forward_output \<Rightarrow> fl option" where
  "loss_term key res = (case res of Inr (Dict out) \<Rightarrow> extra out key | _ \<Rightarrow> None)"

definition output_logits :: "error + 'w forward_output \<Rightarrow> real tensor3 option" where
  "output_logits res = (case res of Inr (Dict out) \<Rightarrow> Some (logits out) | _ \<Rightarrow> None)"

text \<open>
  The invariant of an attention module: the width is a multiple of the head count, the
  four projections have the shapes of the width, and the pruned heads are among the
  original head indices. A head set is valid if it holds original head indices.
\<close>

definition wf_linear :: "'a linear \<Rightarrow> bool" where
  "wf_linear l =
     (length (weight l) = out_features l \<and> list_all (\<lambda>r. length r = in_features l) (weight l)
      \<and> (case bias l of None \<Rightarrow> True | Some b \<Rightarrow> length b = out_features l))"

definition wf_attention :: "'a MultiHeadSelfAttention \<Rightarrow> bool" where
  "wf_attention a =
     (0 \<le> num_attention_heads a \<and> 0 \<le> dim' a \<and> dim' a mod num_attention_heads a = 0
      \<and> wf_linear (q_lin a) \<and> wf_linear (k_lin a) \<and> wf_linear (v_lin a) \<and> wf_linear (out_lin a)
      \<and> out_features (q_lin a) = nat (dim' a) \<and> out_features (k_lin a) = nat (dim' a)
      \<and> out_features (v_lin a) = nat (dim' a) \<and> in_features (out_lin a) = nat (dim' a)
      \<and> finite (pruned_heads a)
      \<and> pruned_heads a \<subseteq> {0 ..< num_attention_heads a + int (card (pruned_heads a))})"

definition valid_heads :: "'a MultiHeadSelfAttention \<Rightarrow> int list \<Rightarrow> bool" where
  "valid_heads a heads =
     (set heads \<subseteq> {0 ..< num_attention_heads a + int (card (pruned_heads a))})"

definition shape :: "'a linear \<Rightarrow> nat \<times> nat" where
  "shape l = (out_features l, in_features l)"

section \<open>Example inputs\<close>






text \<open>
  A model of one block that returns its input, on hidden states of dimension 2 that are
  the logits as well; and a call in non-causal mode with teacher logits, on one example
  of two tokens.
\<close>

definition toy_model :: "unit DistilRobertaForMaskedLM" where
  "toy_model =
     \<lparr>distilroberta =
        \<lparr>embeddings = map (map (\<lambda>i. [real_of_int i, 0])),
         transformer = \<lparr>layer = [\<lambda>am h. ((), h)], head_dimension = 2\<rparr>,
         config_output_attentions = False, config_output_hidden_states = True\<rparr>,
      lm_head = (\<lambda>h. h), config_use_return_dict = True\<rparr>"

definition toy_args :: "string forward_args" where
  "toy_args =
     \<lparr>input_ids = Some [[0, 1]], attention_mask = Some [[True, True]], inputs_embeds = None,
      labels = None, output_attentions = None, output_hidden_states = None, return_dict = None,
      interchanged_variables = None, variable_names = None, interchange_mask = [],
      dual_interchange_mask = [],
      t_logits = Some [[[0, 0], [0, 0]]], t_hidden_states = Some [[[[0, 0], [0, 0]]]],
      causal_t_logits = None, causal_t_hidden_states = None, s_logits = None,
      s_hidden_states = None, temperature = Some 1, restrict_ce_to_mask = None,
      lm_labels = Some [[0, 1]], alpha_mlm = 1, alpha_clm = 1, alpha_mse = 0, alpha_cos = 0\<rparr>"

text \<open>
  The same call with teacher logits equal to the student's, and the call whose labels
  are all ignored, so that the mask \<^verbatim>\<open>lm_labels > -1\<close> selects no position.
\<close>

definition equal_logits_args :: "string forward_args" where
  "equal_logits_args = toy_args\<lparr>t_logits := Some [[[0, 0], [1, 0]]]\<rparr>"

definition empty_selection_args :: "string forward_args" where
  "empty_selection_args =
     toy_args\<lparr>restrict_ce_to_mask := Some True, lm_labels := Some [[- 100, - 100]],
              t_logits := Some [[[0, 0], [1, 0]]], alpha_mlm := 0, alpha_clm := 0\<rparr>"

text \<open>
  The call whose labels have the shape (1, 1) and are expanded along the sequence by
  \<^verbatim>\<open>expand_as\<close>, and a call in causal mode, whose teacher logits are the student's while
  the causal teacher logits are not.
\<close>

definition singleton_labels_args :: "string forward_args" where
  "singleton_labels_args = empty_selection_args\<lparr>lm_labels := Some [[0]]\<rparr>"

definition causal_mode_args :: "string forward_args" where
  "causal_mode_args =
     toy_args\<lparr>t_logits := Some [[[0, 0], [1, 0]]], causal_t_logits := Some [[[0, 0], [0, 0]]],
              causal_t_hidden_states := Some [[[[0, 0], [0, 0]]]],
              s_logits := Some [[[0, 0], [1, 0]]], s_hidden_states := Some [[[[0, 0], [1, 0]]]],
              alpha_mlm := 0, alpha_clm := 0\<rparr>"

text \<open>An attention module of two heads of dimension 1.\<close>

definition toy_linear :: "int linear" where
  "toy_linear = \<lparr>weight = [[1, 2], [3, 4]], bias = Some [5, 6], in_features = 2, out_features = 2\<rparr>"

definition toy_attention :: "int MultiHeadSelfAttention" where
  "toy_attention =
     \<lparr>num_attention_heads = 2, dim' = 2, q_lin = toy_linear, k_lin = toy_linear,
      v_lin = toy_linear, out_lin = toy_linear, pruned_heads = {}\<rparr>"

section \<open>Results\<close>

text \<open>
  C7. A call of the encoder's forward with both token ids and precomputed embeddings, or
  with neither, fails with a ValueError; no input is defaulted and nothing is computed.
\<close>

theorem forward_both_or_neither_fails:
  "(ids \<noteq> None \<and> embeds \<noteq> None) \<or> (ids = None \<and> embeds = None)
   \<Longrightarrow> \<exists>msg. DistilRobertaModel_forward self ids am embeds oa ohs ivs vn im dm
               = Inl (ValueError msg)"
  by (auto simp: DistilRobertaModel_forward_def Let_def)

theorem forward_both_or_neither_fails_witness:
  "((None :: int list list option) = None \<and> (None :: int tensor3 option) = None) \<and>
   (\<exists>msg. DistilRobertaModel_forward
      \<lparr>embeddings = map (map (\<lambda>i. [i])),
       transformer = \<lparr>layer = ([] :: (int, unit) block list), head_dimension = 1\<rparr>,
       config_output_attentions = False, config_output_hidden_states = False\<rparr>
      None None None None None (None :: (nat \<rightharpoonup> int tensor3) option) None [] []
        = Inl (ValueError msg))"
  using forward_both_or_neither_fails [of None None
      "\<lparr>embeddings = map (map (\<lambda>i. [i])),
        transformer = \<lparr>layer = ([] :: (int, unit) block list), head_dimension = 1\<rparr>,
        config_output_attentions = False, config_output_hidden_states = False\<rparr>"
      None None None "None :: (nat \<rightharpoonup> int tensor3) option" None "[]" "[]"]
  by simp

subsection \<open>Interchange\<close>

lemma scatter_seq_all_false: "list_all Not bs \<Longrightarrow> scatter_seq lo w rs bs vs = (rs, vs)"
  by (induction lo w rs bs vs rule: scatter_seq.induct) auto

lemma scatter_all_false: "all_false ms \<Longrightarrow> scatter lo w es ms vs = es"
  by (induction lo w es ms vs rule: scatter.induct) (auto simp: all_false_def scatter_seq_all_false)

lemma setitem_cols_all_false:
  "all_false msk \<Longrightarrow> setitem_cols h s e msk w' v = Inr r \<Longrightarrow> r = h"
  by (auto simp: setitem_cols_def Let_def scatter_all_false split: if_splits sum.splits)

lemma interchange_all_false:
  "all_false im \<Longrightarrow> interchange hdim ivs im dm h v = Inr r \<Longrightarrow> r = h"
  by (auto simp: interchange_def Let_def split: option.splits sum.splits dest: setitem_cols_all_false)

lemma interchange_all_all_false:
  "all_false im \<Longrightarrow> interchange_all hdim ivs im dm vs h = Inr r \<Longrightarrow> r = h"
proof (induction vs arbitrary: h)
  case Nil
  then show ?case by simp
next
  case (Cons v vs)
  then show ?case
    by (auto split: sum.splits dest: interchange_all_false)
qed

lemma interchange_at_all_false:
  "all_false im \<Longrightarrow> interchange_at hdim ivs vn im dm i h = Inr r \<Longrightarrow> r = h"
  by (auto simp: interchange_at_def split: option.splits names.splits dest: interchange_all_all_false)

text \<open>Without variable names the block of the interchange is skipped: nothing is written.\<close>

lemma interchange_at_None: "interchange_at hdim ivs None im dm i h = Inr h"
  by (simp add: interchange_at_def)

lemma forward_layers_all_false:
  "all_false im \<Longrightarrow>
   forward_layers hdim am ivs vn im dm i ls h ahs aas = Inr r \<Longrightarrow>
   forward_layers hdim am ivs' None im' dm' i ls h ahs aas = Inr r"
proof (induction ls arbitrary: i h ahs aas)
  case Nil
  then show ?case by simp
next
  case (Cons l ls)
  from Cons.prems obtain h' where
    h': "interchange_at hdim ivs vn im dm i (snd (l am h)) = Inr h'"
    by (auto simp: Let_def split: sum.splits)
  with Cons.prems(1) have eq: "h' = snd (l am h)"
    by (rule interchange_at_all_false)
  from Cons.prems h' have
    "forward_layers hdim am ivs vn im dm (Suc i) ls h' (map_option (\<lambda>s. s @ [h]) ahs)
       (map_option (\<lambda>s. s @ [fst (l am h)]) aas) = Inr r"
    by (simp add: Let_def)
  then have "forward_layers hdim am ivs' None im' dm' (Suc i) ls h' (map_option (\<lambda>s. s @ [h]) ahs)
       (map_option (\<lambda>s. s @ [fst (l am h)]) aas) = Inr r"
    using Cons.IH Cons.prems(1) by blast
  then show ?case
    by (simp add: Let_def interchange_at_None eq)
qed
















text \<open>
  C1. The source computes \<^verbatim>\<open>stop_index = start_index + interchanged_variable[2].stop\<close>: the
  end of the slice is added to an index that already holds its start. With one head of
  dimension 4 and the slice \<open>1:3\<close> of head 0, a range of length 2 at the offsets 1 and 2,
  the assignment writes the three offsets 1, 2 and 3, and it rejects stored activations
  that have the width of the range.
\<close>

theorem interchange_writes_start_plus_stop:
  "Transformer_forward \<lparr>layer = [\<lambda>am h. ((), h)], head_dimension = 4\<rparr>
     [[[0, 0, 0, 0 :: int]]] [[True]] False False
     (Some [''v'' \<mapsto> [[[7, 8, 9]]]])
     (Some (Names [0 \<mapsto> [(''v'', 0, \<lparr>start = 1, stop = 3\<rparr>)]]))
     [[True]] [[True]]
     = Inr ([[[0, 7, 8, 9]]], None, None) \<and>
   Transformer_forward \<lparr>layer = [\<lambda>am h. ((), h)], head_dimension = 4\<rparr>
     [[[0, 0, 0, 0 :: int]]] [[True]] False False
     (Some [''v'' \<mapsto> [[[7, 8]]]])
     (Some (Names [0 \<mapsto> [(''v'', 0, \<lparr>start = 1, stop = 3\<rparr>)]]))
     [[True]] [[True]]
     = Inl RuntimeError"
  by (simp add: Transformer_forward_def interchange_at_def interchange_def index_mask_def
      same_leading_def select_rows_def setitem_cols_def last_dim_def slice_bound_def
      count_true_def broadcast_values_def put_row_def Let_def)

subsection \<open>The loss terms of the non-causal mode\<close>

lemmas eval_defs = DistilRobertaForMaskedLM_forward_def DistilRobertaModel_forward_def
  Transformer_forward_def interchange_at_def regular_losses_def soft_target_def ce_mask_def
  expand_as_def expand_mask_def expand_to_def same_leading_def slct_def view2_def view3_def masked_select_def last_dim_def
  size3_def add_loss_mlm_def add_loss_clm_def add_loss_mse_def add_loss_cos_def loss_clm_def
  lm_loss_fct_def err_bind_def Let_def mod_Suc div_Suc

lemma err_bind_Inr: "err_bind m f = Inr y \<longleftrightarrow> (\<exists>x. m = Inr x \<and> f x = Inr y)"
  by (cases m) (auto simp: err_bind_def)

lemma add_loss_mlm_Inr:
  "add_loss_mlm a s out = Inr out1 \<Longrightarrow> alpha_mlm a > 0 \<Longrightarrow>
   \<exists>l mlm. lm_labels a = Some l
     \<and> err_bind (view3 (last_dim s) s) (\<lambda>x. lm_loss_fct x (concat l)) = Inr mlm
     \<and> out1 = out(''loss_mlm'' \<mapsto> mlm)"
  by (auto simp: add_loss_mlm_def err_bind_Inr split: option.splits)

lemma add_loss_mlm_skip:
  "add_loss_mlm a s out = Inr out1 \<Longrightarrow> \<not> alpha_mlm a > 0 \<Longrightarrow> out1 = out"
  by (auto simp: add_loss_mlm_def)

lemma add_loss_clm_Inr:
  "add_loss_clm a s out = Inr out2 \<Longrightarrow> alpha_clm a > 0 \<Longrightarrow>
   \<exists>l clm. lm_labels a = Some l \<and> loss_clm s l = Inr clm \<and> out2 = out(''loss_mlm'' \<mapsto> clm)"
  by (auto simp: add_loss_clm_def err_bind_Inr split: option.splits)

lemma add_loss_clm_skip:
  "add_loss_clm a s out = Inr out2 \<Longrightarrow> \<not> alpha_clm a > 0 \<Longrightarrow> out2 = out"
  by (auto simp: add_loss_clm_def)

lemma add_loss_mse_cases:
  "add_loss_mse a s t out =
     (if alpha_mse a > 0 then out(''loss_mse'' \<mapsto> mean_of (mse_loss_fct s t) (length s)) else out)"
  by (simp add: add_loss_mse_def)

lemma add_loss_cos_Inr:
  "add_loss_cos a sh th out = Inr out' \<Longrightarrow>
   (if alpha_cos a > 0 then \<exists>v. out' = out(''loss_cos'' \<mapsto> v) else out' = out)"
  by (auto simp: add_loss_cos_def err_bind_Inr split: if_splits)

lemma regular_losses_Inr:
  assumes "regular_losses a s sh t th = Inr e"
  shows "\<exists>ce ss ts out1 out2. soft_target a s t = Inr (ce, ss, ts)
     \<and> add_loss_mlm a s [''loss_ce'' \<mapsto> ce] = Inr out1
     \<and> add_loss_clm a s out1 = Inr out2
     \<and> add_loss_cos a sh th (add_loss_mse a ss ts out2) = Inr e"
  using assms by (auto simp: regular_losses_def err_bind_Inr)

lemma forward_regular:
  assumes "DistilRobertaForMaskedLM_forward self a = Inr (Dict out)"
    and "causal_t_logits a = None" and "t_logits a = Some t"
  shows "\<exists>sh th. regular_losses a (logits out) sh t th = Inr (extra out)"
  using assms
  apply (auto simp: DistilRobertaForMaskedLM_forward_def Let_def err_bind_Inr
      split: if_splits option.splits)
     apply blast+
  done

lemma toy_run: "\<exists>out. DistilRobertaForMaskedLM_forward toy_model toy_args = Inr (Dict out)"
  by (simp add: toy_model_def toy_args_def eval_defs)

text \<open>
  C10. In the non-causal mode with teacher logits, when the weights of the masked-LM and
  of the causal-LM term are both positive, both cross-entropies are computed, the key
  \<open>loss_mlm\<close> of the output holds the shifted causal-LM one, and no other key than
  \<open>loss_ce\<close>, \<open>loss_mlm\<close>, \<open>loss_mse\<close> and \<open>loss_cos\<close> exists: the masked-LM value
  is overwritten.
\<close>

theorem clm_loss_stored_as_loss_mlm:
  assumes "DistilRobertaForMaskedLM_forward self a = Inr (Dict out)"
    and "causal_t_logits a = None" and "t_logits a \<noteq> None"
    and "alpha_mlm a > 0" and "alpha_clm a > 0"
  shows "\<exists>l mlm clm. lm_labels a = Some l
     \<and> err_bind (view3 (last_dim (logits out)) (logits out)) (\<lambda>x. lm_loss_fct x (concat l)) = Inr mlm
     \<and> loss_clm (logits out) l = Inr clm
     \<and> extra out ''loss_mlm'' = Some clm
     \<and> dom (extra out) \<subseteq> {''loss_ce'', ''loss_mlm'', ''loss_mse'', ''loss_cos''}"
proof -
  from assms(3) obtain t where t: "t_logits a = Some t" by auto
  from forward_regular [OF assms(1,2) t] obtain sh th where
    "regular_losses a (logits out) sh t th = Inr (extra out)" by blast
  from regular_losses_Inr [OF this] obtain ce ss ts out1 out2 where
    o1: "add_loss_mlm a (logits out) [''loss_ce'' \<mapsto> ce] = Inr out1" and
    o2: "add_loss_clm a (logits out) out1 = Inr out2" and
    o3: "add_loss_cos a sh th (add_loss_mse a ss ts out2) = Inr (extra out)"
    by blast
  from add_loss_mlm_Inr [OF o1 assms(4)] obtain l mlm where
    l: "lm_labels a = Some l" and
    mlm: "err_bind (view3 (last_dim (logits out)) (logits out)) (\<lambda>x. lm_loss_fct x (concat l))
            = Inr mlm" and
    out1: "out1 = [''loss_ce'' \<mapsto> ce, ''loss_mlm'' \<mapsto> mlm]"
    by blast
  from add_loss_clm_Inr [OF o2 assms(5)] l obtain clm where
    clm: "loss_clm (logits out) l = Inr clm" and out2: "out2 = out1(''loss_mlm'' \<mapsto> clm)"
    by auto
  from add_loss_cos_Inr [OF o3] have
    "extra out ''loss_mlm'' = Some clm \<and>
     dom (extra out) \<subseteq> {''loss_ce'', ''loss_mlm'', ''loss_mse'', ''loss_cos''}"
    by (auto simp: add_loss_mse_cases out1 out2 split: if_splits)
  with l mlm clm show ?thesis by blast
qed

theorem clm_loss_stored_as_loss_mlm_witness:
  "\<exists>out. DistilRobertaForMaskedLM_forward toy_model toy_args = Inr (Dict out)
     \<and> causal_t_logits toy_args = None \<and> t_logits toy_args \<noteq> None
     \<and> alpha_mlm toy_args > 0 \<and> alpha_clm toy_args > 0
     \<and> (\<exists>l mlm clm. lm_labels toy_args = Some l
          \<and> err_bind (view3 (last_dim (logits out)) (logits out))
               (\<lambda>x. lm_loss_fct x (concat l)) = Inr mlm
          \<and> loss_clm (logits out) l = Inr clm
          \<and> extra out ''loss_mlm'' = Some clm
          \<and> dom (extra out) \<subseteq> {''loss_ce'', ''loss_mlm'', ''loss_mse'', ''loss_cos''})"
proof -
  from toy_run obtain out where
    run: "DistilRobertaForMaskedLM_forward toy_model toy_args = Inr (Dict out)" by blast
  have h: "causal_t_logits toy_args = None" "t_logits toy_args \<noteq> None"
    "alpha_mlm toy_args > 0" "alpha_clm toy_args > 0"
    by (simp_all add: toy_args_def)
  from clm_loss_stored_as_loss_mlm [OF run h] run h show ?thesis by blast
qed

lemma forward_extra_cases:
  assumes "DistilRobertaForMaskedLM_forward self a = Inr (Dict out)"
  shows "(causal_t_logits a = None \<and> t_logits a = None \<and> extra out = Map.empty)
     \<or> (\<exists>t sh th. causal_t_logits a = None \<and> t_logits a = Some t
           \<and> regular_losses a (logits out) sh t th = Inr (extra out))
     \<or> (\<exists>ct. causal_t_logits a = Some ct \<and> t_logits a \<noteq> None
           \<and> causal_losses a (logits out) (hidden_states out) ct = Inr (extra out))"
proof (cases "causal_t_logits a")
  case None
  show ?thesis
  proof (cases "t_logits a")
    case n: None
    with None assms have "extra out = Map.empty"
      by (auto simp: DistilRobertaForMaskedLM_forward_def Let_def err_bind_Inr
          split: if_splits option.splits)
    with None n show ?thesis by simp
  next
    case (Some t)
    from forward_regular [OF assms None Some] None Some show ?thesis by blast
  qed
next
  case (Some ct)
  with assms have c: "causal_losses a (logits out) (hidden_states out) ct = Inr (extra out)"
    by (auto simp: DistilRobertaForMaskedLM_forward_def Let_def err_bind_Inr
        split: if_splits option.splits)
  then have "t_logits a \<noteq> None"
    by (auto simp: causal_losses_def split: if_splits)
  with Some c show ?thesis by blast
qed

lemma causal_losses_dom:
  "causal_losses a s sh ct = Inr e \<Longrightarrow> dom e = {''causal_loss_ce'', ''causal_loss_cos''}"
  by (auto simp: causal_losses_def err_bind_Inr split: if_splits option.splits)

lemma regular_losses_dom:
  assumes "regular_losses a s sh t th = Inr e"
  shows "''loss_ce'' \<in> dom e"
    and "''loss_mlm'' \<in> dom e \<longleftrightarrow> alpha_mlm a > 0 \<or> alpha_clm a > 0"
    and "''loss_mse'' \<in> dom e \<longleftrightarrow> alpha_mse a > 0"
    and "''loss_cos'' \<in> dom e \<longleftrightarrow> alpha_cos a > 0"
proof -
  from regular_losses_Inr [OF assms] obtain ce ss ts out1 out2 where
    o1: "add_loss_mlm a s [''loss_ce'' \<mapsto> ce] = Inr out1" and
    o2: "add_loss_clm a s out1 = Inr out2" and
    o3: "add_loss_cos a sh th (add_loss_mse a ss ts out2) = Inr e"
    by blast
  have d1: "dom out1 = (if alpha_mlm a > 0 then {''loss_ce'', ''loss_mlm''} else {''loss_ce''})"
    using add_loss_mlm_Inr [OF o1] add_loss_mlm_skip [OF o1] by (auto split: if_splits)
  have d2: "dom out2 = (if alpha_clm a > 0 then insert ''loss_mlm'' (dom out1) else dom out1)"
    using add_loss_clm_Inr [OF o2] add_loss_clm_skip [OF o2] by (auto split: if_splits)
  have d3: "dom (add_loss_mse a ss ts out2)
      = (if alpha_mse a > 0 then insert ''loss_mse'' (dom out2) else dom out2)"
    by (simp add: add_loss_mse_cases)
  have d4: "dom e = (if alpha_cos a > 0 then insert ''loss_cos'' (dom (add_loss_mse a ss ts out2))
                     else dom (add_loss_mse a ss ts out2))"
    using add_loss_cos_Inr [OF o3] by (auto split: if_splits)
  show "''loss_ce'' \<in> dom e"
    and "''loss_mlm'' \<in> dom e \<longleftrightarrow> alpha_mlm a > 0 \<or> alpha_clm a > 0"
    and "''loss_mse'' \<in> dom e \<longleftrightarrow> alpha_mse a > 0"
    and "''loss_cos'' \<in> dom e \<longleftrightarrow> alpha_cos a > 0"
    unfolding d4 d3 d2 d1 by simp_all
qed

text \<open>
  What an absent input skips: without labels the loss field is None; without teacher
  logits there is no key \<open>loss_ce\<close>; a weight that is not positive leaves out
  \<open>loss_mse\<close> and \<open>loss_cos\<close>; the key \<open>loss_mlm\<close> is absent when neither the
  masked-LM nor the causal-LM weight is positive.
\<close>

lemma absent_inputs_skip_terms:
  assumes "DistilRobertaForMaskedLM_forward self a = Inr (Dict out)"
  shows "labels a = None \<Longrightarrow> loss out = None"
    and "t_logits a = None \<Longrightarrow> ''loss_ce'' \<notin> dom (extra out)"
    and "\<not> alpha_mse a > 0 \<Longrightarrow> ''loss_mse'' \<notin> dom (extra out)"
    and "\<not> alpha_cos a > 0 \<Longrightarrow> ''loss_cos'' \<notin> dom (extra out)"
    and "\<not> alpha_mlm a > 0 \<Longrightarrow> \<not> alpha_clm a > 0 \<Longrightarrow> ''loss_mlm'' \<notin> dom (extra out)"
proof -
  show "labels a = None \<Longrightarrow> loss out = None"
    using assms
    by (auto simp: DistilRobertaForMaskedLM_forward_def Let_def err_bind_Inr
        split: if_splits option.splits)
  from forward_extra_cases [OF assms] consider
      (none) "t_logits a = None" "extra out = Map.empty"
    | (regular) t sh th where "t_logits a = Some t"
        "regular_losses a (logits out) sh t th = Inr (extra out)"
    | (causal) ct where "t_logits a \<noteq> None"
        "causal_losses a (logits out) (hidden_states out) ct = Inr (extra out)"
    by (elim disjE exE conjE) auto
  then have "(t_logits a = None \<longrightarrow> ''loss_ce'' \<notin> dom (extra out))
     \<and> (\<not> alpha_mse a > 0 \<longrightarrow> ''loss_mse'' \<notin> dom (extra out))
     \<and> (\<not> alpha_cos a > 0 \<longrightarrow> ''loss_cos'' \<notin> dom (extra out))
     \<and> (\<not> alpha_mlm a > 0 \<longrightarrow> \<not> alpha_clm a > 0 \<longrightarrow> ''loss_mlm'' \<notin> dom (extra out))"
  proof cases
    case none
    then show ?thesis by simp
  next
    case regular
    from regular_losses_dom(2-4) [OF regular(2)] regular(1) show ?thesis by simp
  next
    case causal
    from causal_losses_dom [OF causal(2)] causal(1) show ?thesis by simp
  qed
  then show "t_logits a = None \<Longrightarrow> ''loss_ce'' \<notin> dom (extra out)"
    and "\<not> alpha_mse a > 0 \<Longrightarrow> ''loss_mse'' \<notin> dom (extra out)"
    and "\<not> alpha_cos a > 0 \<Longrightarrow> ''loss_cos'' \<notin> dom (extra out)"
    and "\<not> alpha_mlm a > 0 \<Longrightarrow> \<not> alpha_clm a > 0 \<Longrightarrow> ''loss_mlm'' \<notin> dom (extra out)"
    by blast+
qed

text \<open>
  C8. With teacher logits, a masked-LM weight of zero and a positive causal-LM weight,
  the output holds a loss under the key \<open>loss_mlm\<close>: the statement
  \<^verbatim>\<open>student_outputs["loss_mlm"] = loss_clm\<close> puts the key of the masked-LM term into
  the output although the weight of that term is zero.
\<close>

theorem loss_mlm_present_at_zero_weight:
  "alpha_mlm (toy_args\<lparr>alpha_mlm := 0\<rparr>) = 0 \<and>
   loss_term ''loss_mlm'' (DistilRobertaForMaskedLM_forward toy_model (toy_args\<lparr>alpha_mlm := 0\<rparr>))
     \<noteq> None"
  by (simp add: loss_term_def toy_model_def toy_args_def eval_defs)

subsection \<open>The soft-target loss\<close>

lemma select_example:
  "length e = length m \<Longrightarrow> \<forall>r\<in>set e. length r = V \<Longrightarrow>
   map fst (filter snd (zip (concat e) (concat (map (replicate V) m))))
     = concat (map fst (filter snd (zip e m)))"
proof (induction e m rule: list_induct2)
  case Nil
  then show ?case by simp
next
  case (Cons r e b m)
  have "map fst (filter snd (zip r (replicate V b))) = (if b then r else [])"
    using Cons.prems by (cases b) (auto simp: zip_replicate2 filter_empty_conv comp_def map_idI)
  with Cons show ?case by (simp add: zip_append)
qed

lemma length_concat_example:
  "length e = length m \<Longrightarrow> \<forall>r\<in>set e. length r = V \<Longrightarrow>
   length (concat e) = length (concat (map (replicate V) m))"
  by (induction e m rule: list_induct2) auto

lemma masked_select_expand:
  "map length t = map length msk \<Longrightarrow> \<forall>e\<in>set t. \<forall>r\<in>set e. length r = V \<Longrightarrow>
   masked_select t (map (map (replicate V)) msk) = concat (select_rows t msk)"
proof (induction t arbitrary: msk)
  case Nil
  then show ?case by (simp add: masked_select_def select_rows_def)
next
  case (Cons e t)
  then obtain m ms where msk: "msk = m # ms" and len: "length e = length m"
    and rest: "map length t = map length ms"
    by (cases msk) auto
  have rows: "\<forall>r\<in>set e. length r = V" using Cons.prems by simp
  have ih: "masked_select t (map (map (replicate V)) ms) = concat (select_rows t ms)"
    using Cons.IH [OF rest] Cons.prems by simp
  show ?case
    using ih select_example [OF len rows] length_concat_example [OF len rows] len
    by (simp add: msk masked_select_def select_rows_def zip_append)
qed

lemma rows_of_concat:
  "\<forall>r\<in>set rows. length r = V \<Longrightarrow> rows_of (length rows) V (concat rows) = rows"
  by (induction rows) auto

lemma view2_concat:
  "0 < V \<Longrightarrow> \<forall>r\<in>set rows. length r = V \<Longrightarrow> view2 V (concat rows) = Inr rows"
proof -
  assume V: "0 < V" and rows: "\<forall>r\<in>set rows. length r = V"
  have "length (concat rows) = length rows * V"
    using rows by (induction rows) auto
  with V rows show ?thesis
    by (simp add: view2_def rows_of_concat)
qed

lemma set_select_rows: "set (select_rows t msk) \<subseteq> set (concat t)"
  by (auto simp: select_rows_def dest: set_zip_leftD)

lemma slct_expand:
  assumes "map length t = map length msk" and "\<forall>e\<in>set t. \<forall>r\<in>set e. length r = V" and "0 < V"
  shows "slct V t (map (map (replicate V)) msk) = Inr (select_rows t msk)"
proof -
  have "\<forall>r\<in>set (select_rows t msk). length r = V"
    using set_select_rows [of t msk] assms(2) by auto
  with assms show ?thesis
    by (simp add: slct_def masked_select_expand view2_concat)
qed


lemma sum_exp_pos: "xs \<noteq> [] \<Longrightarrow> 0 < (\<Sum>y\<leftarrow>xs. exp (y::real))"
proof (induction xs)
  case Nil
  then show ?case by simp
next
  case (Cons x xs)
  have "0 \<le> (\<Sum>y\<leftarrow>xs. exp y)" by (rule sum_list_nonneg) auto
  moreover have "0 < exp x" by simp
  ultimately show ?case by (simp add: add_pos_nonneg)
qed

lemma kl_term: "0 < P \<Longrightarrow> 0 < Q \<Longrightarrow> xlogy P P - P * ln Q = P * ln (P / Q)"
  by (simp add: xlogy_def ln_divide_pos algebra_simps)

lemma kl_terms:
  assumes "0 < Zs" and "0 < Zt" and "length s = length t"
  shows "(\<Sum>(i, p)\<leftarrow>zip (map (\<lambda>x. x - ln Zs) s) (map (\<lambda>x. exp x / Zt) t). xlogy p p - p * i)
       = (\<Sum>(p, q)\<leftarrow>zip (map (\<lambda>x. exp x / Zt) t) (map (\<lambda>x. exp x / Zs) s). p * ln (p / q))"
  using assms(3)
proof (induction s t rule: list_induct2)
  case Nil
  then show ?case by simp
next
  case (Cons x s y t)
  have p: "0 < exp y / Zt" using assms(2) by simp
  have q: "0 < exp x / Zs" using assms(1) by simp
  have lnq: "x - ln Zs = ln (exp x / Zs)"
    using assms(1) by (simp add: ln_divide_pos)
  have "xlogy (exp y / Zt) (exp y / Zt) - (exp y / Zt) * (x - ln Zs)
       = (exp y / Zt) * ln ((exp y / Zt) / (exp x / Zs))"
    unfolding lnq by (rule kl_term [OF p q])
  with Cons.IH show ?case by simp
qed

lemma row_kl:
  assumes "length s = length t"
  shows "(\<Sum>(i, p)\<leftarrow>zip (log_softmax s) (softmax t). xlogy p p - p * i)
       = kl_divergence (softmax t) (softmax s)"
proof (cases "s = []")
  case True
  then show ?thesis by (simp add: log_softmax_def softmax_def kl_divergence_def)
next
  case False
  with assms have "t \<noteq> []" by auto
  with False show ?thesis
    unfolding log_softmax_def softmax_def kl_divergence_def
    by (intro kl_terms sum_exp_pos assms)
qed

lemma sum_zip_concat:
  assumes "length A = length B" and "\<forall>(a, b)\<in>set (zip A B). length a = length b"
  shows "(\<Sum>z\<leftarrow>zip (concat A) (concat B). f z) = (\<Sum>(a, b)\<leftarrow>zip A B. (\<Sum>z\<leftarrow>zip a b. f z))"
  using assms by (induction A B rule: list_induct2) (auto simp: zip_append)

lemma loss_ce_spec:
  assumes "T \<noteq> 0" and "length S = length Tt" and "\<forall>r\<in>set S. length r = V" and "\<forall>r\<in>set Tt. length r = V"
  shows "loss_ce S Tt T =
     fl_times (mean_of (\<Sum>(s, t)\<leftarrow>zip S Tt.
                 kl_divergence (softmax (map (\<lambda>x. x / T) t)) (softmax (map (\<lambda>x. x / T) s))) (length S)) (T\<^sup>2)"
proof -
  let ?f = "\<lambda>r. log_softmax (map (\<lambda>x. x / T) r)" and ?g = "\<lambda>r. softmax (map (\<lambda>x. x / T) r)"
  have len: "\<forall>(s, t)\<in>set (zip S Tt). length s = length t"
    using assms(3,4) by (auto elim!: in_set_zipE)
  have "(\<Sum>(i, p)\<leftarrow>zip (concat (map ?f S)) (concat (map ?g Tt)). xlogy p p - p * i)
      = (\<Sum>(a, b)\<leftarrow>zip (map ?f S) (map ?g Tt). (\<Sum>(i, p)\<leftarrow>zip a b. xlogy p p - p * i))"
    using len assms(2)
    by (intro sum_zip_concat) (auto simp: zip_map_map log_softmax_def softmax_def)
  also have "\<dots> = (\<Sum>(s, t)\<leftarrow>zip S Tt. (\<Sum>(i, p)\<leftarrow>zip (?f s) (?g t). xlogy p p - p * i))"
    by (simp add: zip_map_map comp_def case_prod_unfold)
  also have "\<dots> = (\<Sum>(s, t)\<leftarrow>zip S Tt. kl_divergence (?g t) (?g s))"
    using len by (intro arg_cong [where f = sum_list] map_cong refl) (auto simp: row_kl)
  finally show ?thesis
    using assms(1) by (simp add: loss_ce_def ce_loss_fct_def)
qed


lemma add_loss_mlm_keeps:
  "add_loss_mlm a s out = Inr out1 \<Longrightarrow> out1 ''loss_ce'' = out ''loss_ce''"
  by (auto simp: add_loss_mlm_def err_bind_Inr split: if_splits option.splits)

lemma add_loss_clm_keeps:
  "add_loss_clm a s out = Inr out1 \<Longrightarrow> out1 ''loss_ce'' = out ''loss_ce''"
  by (auto simp: add_loss_clm_def err_bind_Inr split: if_splits option.splits)

lemma add_loss_mse_keeps: "add_loss_mse a ss ts out ''loss_ce'' = out ''loss_ce''"
  by (simp add: add_loss_mse_def)

lemma add_loss_cos_keeps:
  "add_loss_cos a sh th out = Inr out1 \<Longrightarrow> out1 ''loss_ce'' = out ''loss_ce''"
  by (auto simp: add_loss_cos_def err_bind_Inr split: if_splits)

lemma regular_losses_ce:
  assumes "regular_losses a s sh t th = Inr e"
  shows "\<exists>ce ss ts. soft_target a s t = Inr (ce, ss, ts) \<and> e ''loss_ce'' = Some ce"
proof -
  from regular_losses_Inr [OF assms] obtain ce ss ts out1 out2 where
    st: "soft_target a s t = Inr (ce, ss, ts)" and
    o1: "add_loss_mlm a s [''loss_ce'' \<mapsto> ce] = Inr out1" and
    o2: "add_loss_clm a s out1 = Inr out2" and
    o3: "add_loss_cos a sh th (add_loss_mse a ss ts out2) = Inr e"
    by blast
  have "e ''loss_ce'' = Some ce"
    using add_loss_mlm_keeps [OF o1] add_loss_clm_keeps [OF o2] add_loss_cos_keeps [OF o3]
    by (simp add: add_loss_mse_keeps)
  with st show ?thesis by blast
qed

lemma soft_target_Inr:
  assumes "soft_target a s t = Inr (ce, ss, ts)"
  shows "size3 s = size3 t \<and> length ts = length ss \<and>
     (\<exists>m3 T. ce_mask a s = Inr m3 \<and> slct (last_dim s) s m3 = Inr ss
        \<and> slct (last_dim s) t m3 = Inr ts \<and> temperature a = Some T \<and> ce = loss_ce ss ts T)"
  using assms
  by (auto simp: soft_target_def err_bind_Inr split: if_splits option.splits)

lemma ce_mask_Inr:
  assumes "ce_mask a s = Inr m3"
  shows "\<exists>msk E. selection_mask a = Some msk
     \<and> expand_mask (length s) (fst (snd (size3 s))) msk = Some E
     \<and> m3 = map (map (replicate (last_dim s))) E"
proof -
  have eq: "(\<lambda>x::int. - 1 < x) = (\<lambda>l. 0 \<le> l)" by auto
  show ?thesis
    using assms
    by (auto simp: ce_mask_def selection_mask_def expand_as_def eq split: if_splits option.splits)
qed

lemma expand_to_length: "expand_to n xs = Some ys \<Longrightarrow> length ys = n"
  by (auto simp: expand_to_def split: if_splits)

lemma expand_mask_shape:
  assumes "expand_mask b s msk = Some E"
  shows "map length E = replicate b s"
proof -
  from assms obtain rows where rows: "expand_to b msk = Some rows"
    and E: "E = map (\<lambda>r. if length r = s then r else replicate s (hd r)) rows"
    by (auto simp: expand_mask_def split: option.splits if_splits)
  have "length E = b" using expand_to_length [OF rows] by (simp add: E)
  moreover have "\<forall>r\<in>set E. length r = s" by (auto simp: E)
  ultimately show ?thesis by (auto intro!: replicate_eqI)
qed

lemma rect3_rows: "rect3 t \<Longrightarrow> \<forall>e\<in>set t. \<forall>r\<in>set e. length r = last_dim t"
  by (auto simp: rect3_def list_all_iff)

lemma rect3_lengths: "rect3 t \<Longrightarrow> map length t = replicate (length t) (fst (snd (size3 t)))"
  by (auto simp: rect3_def list_all_iff intro!: replicate_eqI)

lemma slct_Inr_pos: "slct V t m = Inr r \<Longrightarrow> 0 < V"
  by (auto simp: slct_def view2_def split: if_splits)

lemma forward_loss_ce:
  assumes fw: "DistilRobertaForMaskedLM_forward self a = Inr (Dict out)"
    and "causal_t_logits a = None" and tl: "t_logits a = Some t"
    and rs: "rect3 (logits out)" and rt: "rect3 t" and T0: "temperature a \<noteq> Some 0"
  shows "\<exists>msk E T. selection_mask a = Some msk
     \<and> expand_mask (length (logits out)) (fst (snd (size3 (logits out)))) msk = Some E
     \<and> temperature a = Some T
     \<and> same_leading (logits out) E \<and> 0 < last_dim (logits out) \<and> size3 (logits out) = size3 t
     \<and> extra out ''loss_ce'' = Some (spec_soft_target_loss (logits out) t E T)"
proof -
  let ?s = "logits out" and ?V = "last_dim (logits out)"
  from forward_regular [OF fw assms(2) tl] obtain sh th where
    "regular_losses a ?s sh t th = Inr (extra out)" by blast
  from regular_losses_ce [OF this] obtain ce ss ts where
    st: "soft_target a ?s t = Inr (ce, ss, ts)" and ce: "extra out ''loss_ce'' = Some ce"
    by blast
  from soft_target_Inr [OF st] obtain m3 T where
    sz: "size3 ?s = size3 t" and len: "length ts = length ss" and
    m3: "ce_mask a ?s = Inr m3" and ss: "slct ?V ?s m3 = Inr ss" and
    ts: "slct ?V t m3 = Inr ts" and T: "temperature a = Some T" and
    ce_eq: "ce = loss_ce ss ts T"
    by blast
  from ce_mask_Inr [OF m3] obtain msk E where
    sel: "selection_mask a = Some msk" and
    ex: "expand_mask (length ?s) (fst (snd (size3 ?s))) msk = Some E" and
    m3_eq: "m3 = map (map (replicate ?V)) E"
    by blast
  have V: "0 < ?V" using ss by (rule slct_Inr_pos)
  have ld: "last_dim t = ?V" using sz by (simp add: size3_def)
  have lead_s: "map length ?s = map length E"
    using rect3_lengths [OF rs] expand_mask_shape [OF ex] by simp
  have lead_t: "map length t = map length E"
    using lead_s rect3_lengths [OF rs] rect3_lengths [OF rt] sz
    by (simp add: size3_def)
  have lead: "same_leading ?s E" using lead_s by (simp add: same_leading_def)
  have rows_s: "\<forall>e\<in>set ?s. \<forall>r\<in>set e. length r = ?V" using rs by (rule rect3_rows)
  have rows_t: "\<forall>e\<in>set t. \<forall>r\<in>set e. length r = ?V" using rect3_rows [OF rt] ld by simp
  have ss_eq: "ss = select_rows ?s E"
    using ss slct_expand [OF lead_s rows_s V] by (simp add: m3_eq)
  have ts_eq: "ts = select_rows t E"
    using ts slct_expand [OF lead_t rows_t V] by (simp add: m3_eq)
  have rs': "\<forall>r\<in>set ss. length r = ?V"
    using set_select_rows [of ?s E] rows_s by (auto simp: ss_eq)
  have rt': "\<forall>r\<in>set ts. length r = ?V"
    using set_select_rows [of t E] rows_t by (auto simp: ts_eq)
  have "T \<noteq> 0" using T0 T by simp
  from loss_ce_spec [OF this len [symmetric] rs' rt']
  have "ce = spec_soft_target_loss ?s t E T"
    by (simp add: ce_eq spec_soft_target_loss_def Let_def ss_eq ts_eq mean_of_def fl_times_def)
  with ce sel ex T lead V sz show ?thesis by blast
qed

text \<open>
  C2. In the non-causal mode with teacher logits, on rectangular logits and with a
  temperature other than zero, the loss stored under \<open>loss_ce\<close> is the Kullback-Leibler
  divergence between the softmax of the teacher's logits over T and the softmax of the
  student's logits over T, summed over the positions that the mask selects only, divided
  by the number of these positions and multiplied by T squared. The mask is the one of
  the gold labels under \<^verbatim>\<open>restrict_ce_to_mask\<close> and the attention mask otherwise,
  expanded to the positions of the logits.
\<close>

theorem soft_target_loss_is_scaled_kl:
  assumes "DistilRobertaForMaskedLM_forward self a = Inr (Dict out)"
    and "causal_t_logits a = None" and "t_logits a = Some t"
    and "rect3 (logits out)" and "rect3 t" and "temperature a \<noteq> Some 0"
  shows "\<exists>msk E T. selection_mask a = Some msk
     \<and> expand_mask (length (logits out)) (fst (snd (size3 (logits out)))) msk = Some E
     \<and> temperature a = Some T
     \<and> extra out ''loss_ce'' =
         Some (if length (select_rows (logits out) E) = 0 then NaN
               else Num ((\<Sum>(s, t)\<leftarrow>zip (select_rows (logits out) E) (select_rows t E).
                            kl_divergence (softmax (map (\<lambda>x. x / T) t))
                              (softmax (map (\<lambda>x. x / T) s)))
                          / real (length (select_rows (logits out) E)) * T\<^sup>2))"
  using forward_loss_ce [OF assms] by (auto simp: spec_soft_target_loss_def Let_def)

lemma sum_list_all_zero:
  "(\<And>x. x \<in> set xs \<Longrightarrow> f x = (0::real)) \<Longrightarrow> sum_list (map f xs) = 0"
  by (induction xs) auto

lemma kl_divergence_self: "kl_divergence p p = 0"
  unfolding kl_divergence_def
  by (rule sum_list_all_zero) (auto simp: zip_same)

lemma length_filter_zip:
  "length xs = length bs \<Longrightarrow> length (filter snd (zip xs bs)) = length (filter id bs)"
  by (induction xs bs rule: list_induct2) auto

lemma length_select_rows:
  "same_leading t msk \<Longrightarrow> length (select_rows t msk) = count_true msk"
proof -
  assume "same_leading t msk"
  then have "length (concat t) = length (concat msk)"
    by (simp add: same_leading_def length_concat)
  then show ?thesis
    by (simp add: select_rows_def count_true_def length_filter_zip)
qed

lemma spec_soft_target_loss_self:
  "spec_soft_target_loss s s msk 1 = (if length (select_rows s msk) = 0 then NaN else Num 0)"
proof -
  have "(\<Sum>(x, y)\<leftarrow>zip (select_rows s msk) (select_rows s msk).
           kl_divergence (softmax (map (\<lambda>x. x / 1) y)) (softmax (map (\<lambda>x. x / 1) x))) = 0"
    by (rule sum_list_all_zero) (auto simp: zip_same kl_divergence_self)
  then show ?thesis
    by (simp add: spec_soft_target_loss_def Let_def)
qed

text \<open>
  C6, amended. In the non-causal mode, when the teacher logits are the student logits and
  the temperature is 1, the soft-target loss is zero if the mask, expanded to the
  positions of the logits, selects at least one position, and NaN if it selects none.
\<close>

theorem equal_logits_zero_loss:
  assumes "DistilRobertaForMaskedLM_forward self a = Inr (Dict out)"
    and "causal_t_logits a = None" and "t_logits a = Some (logits out)"
    and "temperature a = Some 1" and "rect3 (logits out)"
  shows "\<exists>msk E. selection_mask a = Some msk
     \<and> expand_mask (length (logits out)) (fst (snd (size3 (logits out)))) msk = Some E
     \<and> extra out ''loss_ce'' = Some (if count_true E = 0 then NaN else Num 0)"
proof -
  have "temperature a \<noteq> Some 0" using assms(4) by simp
  from forward_loss_ce [OF assms(1,2,3,5,5) this] assms(4) obtain msk E where
    sel: "selection_mask a = Some msk" and
    ex: "expand_mask (length (logits out)) (fst (snd (size3 (logits out)))) msk = Some E" and
    lead: "same_leading (logits out) E" and
    ce: "extra out ''loss_ce'' = Some (spec_soft_target_loss (logits out) (logits out) E 1)"
    by auto
  have "extra out ''loss_ce'' = Some (if count_true E = 0 then NaN else Num 0)"
    using ce length_select_rows [OF lead] by (simp add: spec_soft_target_loss_self)
  with sel ex show ?thesis by blast
qed

lemma toy_run_logits:
  "\<exists>out. DistilRobertaForMaskedLM_forward toy_model toy_args = Inr (Dict out)
     \<and> logits out = [[[0, 0], [1, 0]]]"
  by (simp add: toy_model_def toy_args_def eval_defs)

lemma equal_logits_run:
  "\<exists>out. DistilRobertaForMaskedLM_forward toy_model equal_logits_args = Inr (Dict out)
     \<and> logits out = [[[0, 0], [1, 0]]]"
  by (simp add: equal_logits_args_def toy_model_def toy_args_def eval_defs)

theorem soft_target_loss_is_scaled_kl_witness:
  "\<exists>out. DistilRobertaForMaskedLM_forward toy_model toy_args = Inr (Dict out)
     \<and> causal_t_logits toy_args = None \<and> t_logits toy_args = Some [[[0, 0], [0, 0]]]
     \<and> rect3 (logits out) \<and> rect3 [[[0, 0], [0, 0 :: real]]] \<and> temperature toy_args \<noteq> Some 0
     \<and> (\<exists>msk E T. selection_mask toy_args = Some msk
          \<and> expand_mask (length (logits out)) (fst (snd (size3 (logits out)))) msk = Some E
          \<and> temperature toy_args = Some T
          \<and> extra out ''loss_ce'' =
              Some (if length (select_rows (logits out) E) = 0 then NaN
                    else Num ((\<Sum>(s, t)\<leftarrow>zip (select_rows (logits out) E)
                                           (select_rows [[[0, 0], [0, 0]]] E).
                                 kl_divergence (softmax (map (\<lambda>x. x / T) t))
                                   (softmax (map (\<lambda>x. x / T) s)))
                               / real (length (select_rows (logits out) E)) * T\<^sup>2)))"
proof -
  from toy_run_logits obtain out where
    run: "DistilRobertaForMaskedLM_forward toy_model toy_args = Inr (Dict out)" and
    lg: "logits out = [[[0, 0], [1, 0]]]" by blast
  have h: "causal_t_logits toy_args = None" "t_logits toy_args = Some [[[0, 0], [0, 0]]]"
    by (simp_all add: toy_args_def)
  have r: "rect3 (logits out)" "rect3 [[[0, 0], [0, 0 :: real]]]"
    by (simp_all add: lg rect3_def size3_def last_dim_def)
  have t: "temperature toy_args \<noteq> Some 0" by (simp add: toy_args_def)
  from soft_target_loss_is_scaled_kl [OF run h r t] run h r t show ?thesis by blast
qed

theorem equal_logits_zero_loss_witness:
  "\<exists>out. DistilRobertaForMaskedLM_forward toy_model equal_logits_args = Inr (Dict out)
     \<and> causal_t_logits equal_logits_args = None \<and> t_logits equal_logits_args = Some (logits out)
     \<and> temperature equal_logits_args = Some 1 \<and> rect3 (logits out)
     \<and> selection_mask equal_logits_args = Some [[True, True]]
     \<and> expand_mask (length (logits out)) (fst (snd (size3 (logits out)))) [[True, True]]
          = Some [[True, True]]
     \<and> extra out ''loss_ce'' = Some (Num 0)"
proof -
  from equal_logits_run obtain out where
    run: "DistilRobertaForMaskedLM_forward toy_model equal_logits_args = Inr (Dict out)" and
    lg: "logits out = [[[0, 0], [1, 0]]]" by blast
  have h: "causal_t_logits equal_logits_args = None" "t_logits equal_logits_args = Some (logits out)"
    "temperature equal_logits_args = Some 1"
    by (simp_all add: equal_logits_args_def toy_args_def lg)
  have r: "rect3 (logits out)"
    by (simp add: lg rect3_def size3_def last_dim_def)
  have s: "selection_mask equal_logits_args = Some [[True, True]]"
    by (simp add: selection_mask_def equal_logits_args_def toy_args_def)
  have e: "expand_mask (length (logits out)) (fst (snd (size3 (logits out)))) [[True, True]]
             = Some [[True, True]]"
    by (simp add: lg size3_def expand_mask_def expand_to_def)
  from equal_logits_zero_loss [OF run h r] obtain msk E where
    m: "selection_mask equal_logits_args = Some msk" and
    x: "expand_mask (length (logits out)) (fst (snd (size3 (logits out)))) msk = Some E" and
    c: "extra out ''loss_ce'' = Some (if count_true E = 0 then NaN else Num 0)" by blast
  from m s have "msk = [[True, True]]" by simp
  with x e have "E = [[True, True]]" by simp
  with c have "extra out ''loss_ce'' = Some (Num 0)"
    by (simp add: count_true_def)
  with run h r s e show ?thesis by blast
qed

text \<open>
  C6 as stated fails when the mask selects no position: with
  \<^verbatim>\<open>restrict_ce_to_mask\<close> and labels that are all -100, teacher logits equal to the
  student's and temperature 1, the batch mean divides by zero and the loss is NaN.
\<close>

theorem nan_loss_on_empty_selection:
  "output_logits (DistilRobertaForMaskedLM_forward toy_model empty_selection_args)
     = t_logits empty_selection_args \<and>
   temperature empty_selection_args = Some 1 \<and>
   loss_term ''loss_ce'' (DistilRobertaForMaskedLM_forward toy_model empty_selection_args)
     = Some NaN \<and>
   loss_term ''loss_ce'' (DistilRobertaForMaskedLM_forward toy_model empty_selection_args)
     \<noteq> Some (Num 0)"
  by (simp add: loss_term_def output_logits_def empty_selection_args_def toy_model_def toy_args_def
      eval_defs loss_ce_def ce_loss_fct_def mean_of_def fl_times_def)

text \<open>
  A mask of shape (1, 1) is expanded along the sequence, as \<^verbatim>\<open>expand_as\<close> does with a
  dimension of size 1: both positions are selected and the loss is zero.
\<close>

lemma singleton_labels_run:
  "\<exists>out. DistilRobertaForMaskedLM_forward toy_model singleton_labels_args = Inr (Dict out)
     \<and> logits out = [[[0, 0], [1, 0]]]"
  by (simp add: singleton_labels_args_def empty_selection_args_def toy_model_def toy_args_def
      eval_defs)

lemma singleton_mask_is_expanded:
  "expand_as [[True]] [[[0, 0], [1, 0 :: real]]] = Inr [[[True, True], [True, True]]]
   \<and> loss_term ''loss_ce'' (DistilRobertaForMaskedLM_forward toy_model singleton_labels_args)
       = Some (Num 0)"
proof -
  let ?a = singleton_labels_args
  from singleton_labels_run obtain out where
    run: "DistilRobertaForMaskedLM_forward toy_model ?a = Inr (Dict out)" and
    lg: "logits out = [[[0, 0], [1, 0]]]" by blast
  have h: "causal_t_logits ?a = None" "t_logits ?a = Some (logits out)"
    by (simp_all add: singleton_labels_args_def empty_selection_args_def toy_args_def lg)
  have r: "rect3 (logits out)"
    by (simp add: lg rect3_def size3_def last_dim_def)
  have t: "temperature ?a = Some 1"
    by (simp add: singleton_labels_args_def empty_selection_args_def toy_args_def)
  then have t0: "temperature ?a \<noteq> Some 0" by simp
  have s: "selection_mask ?a = Some [[True]]"
    by (simp add: selection_mask_def singleton_labels_args_def empty_selection_args_def
        toy_args_def)
  have e: "expand_mask (length (logits out)) (fst (snd (size3 (logits out)))) [[True]]
             = Some [[True, True]]"
    by (simp add: lg size3_def expand_mask_def expand_to_def)
  from forward_loss_ce [OF run h r r t0] obtain msk E T where
    m: "selection_mask ?a = Some msk" and
    x: "expand_mask (length (logits out)) (fst (snd (size3 (logits out)))) msk = Some E" and
    T: "temperature ?a = Some T" and
    c: "extra out ''loss_ce'' = Some (spec_soft_target_loss (logits out) (logits out) E T)"
    by blast
  from m s have "msk = [[True]]" by simp
  with x e have E: "E = [[True, True]]" by simp
  from T t have "T = 1" by simp
  with c E have "extra out ''loss_ce'' = Some (Num 0)"
    by (simp add: spec_soft_target_loss_self) (simp add: lg select_rows_def)
  then have "loss_term ''loss_ce'' (DistilRobertaForMaskedLM_forward toy_model ?a) = Some (Num 0)"
    by (simp add: loss_term_def run)
  moreover have "expand_as [[True]] [[[0, 0], [1, 0 :: real]]] = Inr [[[True, True], [True, True]]]"
    by (simp add: expand_as_def expand_mask_def expand_to_def size3_def last_dim_def)
  ultimately show ?thesis by simp
qed

text \<open>
  In the causal mode the term \<^verbatim>\<open>loss_ce\<close> is not computed: the only soft-target term is
  \<^verbatim>\<open>causal_loss_ce\<close>, between the student logits and \<^verbatim>\<open>causal_t_logits\<close>, and it is not
  zero when \<^verbatim>\<open>t_logits\<close> are the student logits and the temperature is 1.
\<close>

lemma exp_one_square: "(1 + exp (1::real))\<^sup>2 \<noteq> 4 * exp 1"
proof
  assume "(1 + exp (1::real))\<^sup>2 = 4 * exp 1"
  then have "(exp (1::real) - 1)\<^sup>2 = 0" by (simp add: power2_eq_square algebra_simps)
  then have "exp (1::real) = 1" by simp
  then show False by simp
qed

lemma kl_uniform_differs:
  "kl_divergence [1 / 2, 1 / 2] [exp 1 / (exp 1 + 1), 1 / (exp 1 + 1)] \<noteq> (0::real)"
proof -
  let ?e = "exp (1::real)"
  have e: "0 < ?e" by simp
  have a: "ln ((1 / 2) / (?e / (?e + 1))) = ln ((?e + 1) / (2 * ?e))"
    by (simp add: field_simps)
  have b: "ln ((1 / 2) / (1 / (?e + 1))) = ln ((?e + 1) / 2)"
    by (simp add: field_simps)
  have "ln ((?e + 1) / (2 * ?e)) + ln ((?e + 1) / 2) = ln (((?e + 1) / (2 * ?e)) * ((?e + 1) / 2))"
    using e by (intro ln_mult_pos [symmetric]) (simp_all add: add_pos_pos)
  also have "((?e + 1) / (2 * ?e)) * ((?e + 1) / 2) = (1 + ?e)\<^sup>2 / (4 * ?e)"
    by (simp add: power2_eq_square field_simps)
  finally have s: "ln ((?e + 1) / (2 * ?e)) + ln ((?e + 1) / 2) = ln ((1 + ?e)\<^sup>2 / (4 * ?e))" .
  have "0 < 1 + ?e" using e by (simp add: add_pos_pos)
  then have "0 < (1 + ?e)\<^sup>2" by (rule zero_less_power)
  moreover have "0 < 4 * ?e" using e by simp
  ultimately have pos: "0 < (1 + ?e)\<^sup>2 / (4 * ?e)" by (rule divide_pos_pos)
  have "(1 + ?e)\<^sup>2 / (4 * ?e) \<noteq> 1" using exp_one_square e by (simp add: field_simps)
  with pos have "ln ((1 + ?e)\<^sup>2 / (4 * ?e)) \<noteq> 0" by (simp add: ln_eq_zero_iff)
  with s have "ln ((?e + 1) / (2 * ?e)) + ln ((?e + 1) / 2) \<noteq> 0" by simp
  then show ?thesis
    unfolding kl_divergence_def by (simp add: a b del: ln_div)
qed

lemma softmax_zero_zero: "softmax [0, 0] = [1 / 2, 1 / 2]"
  by (simp add: softmax_def)

lemma softmax_one_zero: "softmax [1, 0] = [exp 1 / (exp 1 + 1), 1 / (exp 1 + 1)]"
  by (simp add: softmax_def)

lemma loss_ce_differs: "loss_ce [[0, 0], [1, 0]] [[0, 0], [0, 0]] 1 \<noteq> Num 0"
proof -
  have "loss_ce [[0, 0], [1, 0]] [[0, 0], [0, 0]] 1 =
      fl_times (mean_of (\<Sum>(s, t)\<leftarrow>zip [[0, 0], [1, 0]] [[0, 0], [0, 0]].
                 kl_divergence (softmax (map (\<lambda>x. x / 1) t)) (softmax (map (\<lambda>x. x / 1) s)))
                  (length [[0, 0], [1, 0 :: real]])) (1\<^sup>2)"
    by (rule loss_ce_spec [where V = 2]) simp_all
  also have "\<dots> = Num (kl_divergence [1 / 2, 1 / 2] [exp 1 / (exp 1 + 1), 1 / (exp 1 + 1)] / 2)"
    by (simp add: softmax_zero_zero softmax_one_zero kl_divergence_self mean_of_def fl_times_def)
  finally show ?thesis using kl_uniform_differs by simp
qed

lemma causal_mode_run:
  "loss_term ''causal_loss_ce'' (DistilRobertaForMaskedLM_forward toy_model causal_mode_args)
     = Some (loss_ce [[0, 0], [1, 0]] [[0, 0], [0, 0]] 1)
   \<and> loss_term ''loss_ce'' (DistilRobertaForMaskedLM_forward toy_model causal_mode_args) = None
   \<and> output_logits (DistilRobertaForMaskedLM_forward toy_model causal_mode_args)
       = t_logits causal_mode_args"
  by (simp add: loss_term_def output_logits_def causal_mode_args_def toy_model_def toy_args_def
      causal_losses_def loss_cos_def last_item_def eval_defs)

lemma causal_mode_soft_target_not_zero:
  "output_logits (DistilRobertaForMaskedLM_forward toy_model causal_mode_args)
     = t_logits causal_mode_args
   \<and> temperature causal_mode_args = Some 1
   \<and> loss_term ''loss_ce'' (DistilRobertaForMaskedLM_forward toy_model causal_mode_args) = None
   \<and> (\<exists>l. loss_term ''causal_loss_ce''
              (DistilRobertaForMaskedLM_forward toy_model causal_mode_args) = Some l
          \<and> l \<noteq> Num 0)"
  using causal_mode_run loss_ce_differs by (simp add: causal_mode_args_def toy_args_def)

subsection \<open>Sinusoidal position embeddings\<close>

lemma length_every_other: "length (every_other xs) = (length xs + 1) div 2"
  by (induction xs rule: every_other.induct) auto

lemma nth_every_other: "i < length (every_other xs) \<Longrightarrow> every_other xs ! i = xs ! (2 * i)"
proof (induction xs arbitrary: i rule: every_other.induct)
  case (1 x y xs)
  then show ?case by (cases i) auto
qed auto

lemma length_set_every_other: "length (set_every_other xs vs) = length xs"
  by (induction xs vs rule: set_every_other.induct) auto

lemma nth_set_every_other:
  "length vs = (length xs + 1) div 2 \<Longrightarrow> j < length xs \<Longrightarrow>
   set_every_other xs vs ! j = (if even j then vs ! (j div 2) else xs ! j)"
proof (induction xs vs arbitrary: j rule: set_every_other.induct)
  case (1 x y xs v vs)
  show ?case
  proof (cases j)
    case 0
    then show ?thesis by simp
  next
    case (Suc k)
    show ?thesis
    proof (cases k)
      case 0
      with Suc show ?thesis by simp
    next
      case (Suc m)
      with 1 \<open>j = Suc k\<close> show ?thesis by simp
    qed
  qed
qed auto

lemma broadcast_same:
  "length vs = k \<Longrightarrow> broadcast_values k w w vs = Inr vs"
  by (simp add: broadcast_values_def)

lemma setitem_stride_same:
  assumes "length val = length out" and "ncols val = length (get_stride off (replicate (ncols out) ()))"
  shows "setitem_stride off out val = Inr (map2 (set_stride off) out val)"
  using assms by (simp add: setitem_stride_def broadcast_same)


lemma length_set_stride: "length (set_stride off xs vs) = length xs"
  by (simp add: set_stride_def length_set_every_other)

lemma nth_set_stride0:
  "length vs = (length xs + 1) div 2 \<Longrightarrow> j < length xs \<Longrightarrow>
   set_stride 0 xs vs ! j = (if even j then vs ! (j div 2) else xs ! j)"
  by (simp add: set_stride_def nth_set_every_other)

lemma nth_set_stride1:
  assumes "length vs = length xs div 2" and "j < length xs"
  shows "set_stride 1 xs vs ! j = (if odd j then vs ! (j div 2) else xs ! j)"
proof (cases xs)
  case Nil
  with assms show ?thesis by simp
next
  case (Cons x ys)
  show ?thesis
  proof (cases j)
    case 0
    with Cons show ?thesis by (simp add: set_stride_def)
  next
    case (Suc k)
    have "set_every_other ys vs ! k = (if even k then vs ! (k div 2) else ys ! k)"
      using assms Cons Suc by (intro nth_set_every_other) auto
    with Cons Suc show ?thesis by (simp add: set_stride_def)
  qed
qed

lemma row_values:
  assumes "length o' = d" and "length e = d" and "j < d"
  shows "set_stride 1 (set_stride 0 o' (map sin (get_stride 0 e))) (map cos (get_stride 1 e)) ! j
       = (if even j then sin (e ! j) else cos (e ! j))"
proof -
  let ?s = "map sin (get_stride 0 e)" and ?c = "map cos (get_stride 1 e)"
  have ls: "length ?s = (length o' + 1) div 2"
    using assms by (simp add: get_stride_def length_every_other)
  have lc: "length ?c = length (set_stride 0 o' ?s) div 2"
    using assms by (simp add: get_stride_def length_every_other length_set_stride)
  have j': "j < length (set_stride 0 o' ?s)" using assms by (simp add: length_set_stride)
  show ?thesis
  proof (cases "even j")
    case True
    then have "j div 2 < length (every_other e)"
      using assms by (auto simp: length_every_other elim!: evenE)
    then have "?s ! (j div 2) = sin (e ! j)"
      using True by (auto simp: get_stride_def nth_every_other elim!: evenE)
    then show ?thesis
      using True nth_set_stride1 [OF lc j'] nth_set_stride0 [OF ls] assms by simp
  next
    case False
    then obtain k where k: "j = 2 * k + 1" by (auto elim: oddE)
    then have kl: "k < length (every_other (drop 1 e))"
      using assms by (auto simp: length_every_other)
    have "?c ! (j div 2) = cos (e ! j)"
      using kl k assms by (simp add: get_stride_def nth_every_other)
    then show ?thesis
      using False nth_set_stride1 [OF lc j'] by simp
  qed
qed

lemma ncols_map: "rows \<noteq> [] \<Longrightarrow> ncols (map f rows) = length (f (hd rows))"
  by (cases rows) (auto simp: ncols_def)

lemma ncols_uniform: "rows \<noteq> [] \<Longrightarrow> \<forall>r\<in>set rows. length r = d \<Longrightarrow> ncols rows = d"
  by (cases rows) (auto simp: ncols_def)

lemma length_position_enc: "length (position_enc n d) = n"
  by (simp add: position_enc_def)

lemma position_enc_rows: "\<forall>r\<in>set (position_enc n d). length r = d"
  by (auto simp: position_enc_def)

lemma nth_position_enc:
  "pos < n \<Longrightarrow> j < d \<Longrightarrow>
   position_enc n d ! pos ! j = real pos / 10000 powr (2 * real (j div 2) / real d)"
  by (simp add: position_enc_def)

lemma create_sinusoidal_embeddings_eq:
  assumes len: "length (data out) = n_pos" and rows: "\<forall>r\<in>set (data out). length r = d"
    and pos: "0 < n_pos"
  shows "create_sinusoidal_embeddings n_pos d out =
     Inr \<lparr>data = map2 (\<lambda>o' e. set_stride 1 (set_stride 0 o' (map sin (get_stride 0 e)))
                                  (map cos (get_stride 1 e)))
                    (data out) (position_enc n_pos d),
          requires_grad = False\<rparr>"
proof -
  let ?enc = "position_enc n_pos d"
  let ?S = "map (\<lambda>r. map sin (get_stride 0 r)) ?enc"
  let ?C = "map (\<lambda>r. map cos (get_stride 1 r)) ?enc"
  let ?d1 = "map2 (set_stride 0) (data out) ?S"
  have ne: "?enc \<noteq> []" "data out \<noteq> []"
    using pos len length_position_enc [of n_pos d] by auto
  have hd_enc: "length (hd ?enc) = d"
    using ne position_enc_rows [of n_pos d] by (cases ?enc) auto
  have nS: "ncols ?S = (d + 1) div 2"
    using ne hd_enc by (simp add: ncols_map get_stride_def length_every_other)
  have nC: "ncols ?C = d div 2"
    using ne hd_enc by (simp add: ncols_map get_stride_def length_every_other)
  have nout: "ncols (data out) = d" using ne(2) rows by (rule ncols_uniform)
  have s1: "setitem_stride 0 (data out) ?S = Inr ?d1"
    using len nS nout
    by (intro setitem_stride_same) (simp_all add: length_position_enc get_stride_def length_every_other)
  have d1ne: "?d1 \<noteq> []" using ne len by (cases "data out"; cases ?enc) auto
  have "\<forall>r\<in>set ?d1. length r = d"
    using rows by (auto simp: length_set_stride dest!: set_zip_leftD)
  with d1ne have nd1: "ncols ?d1 = d" by (rule ncols_uniform)
  have s2: "setitem_stride 1 ?d1 ?C = Inr (map2 (set_stride 1) ?d1 ?C)"
    using len nC nd1
    by (intro setitem_stride_same) (simp_all add: length_position_enc get_stride_def length_every_other)
  have "map2 (set_stride 1) ?d1 ?C
      = map2 (\<lambda>o' e. set_stride 1 (set_stride 0 o' (map sin (get_stride 0 e))) (map cos (get_stride 1 e)))
          (data out) ?enc"
    using len length_position_enc [of n_pos d]
    by (intro nth_equalityI) auto
  with s1 s2 pos show ?thesis
    by (simp add: create_sinusoidal_embeddings_def err_bind_def)
qed

text \<open>
  C9. On a table of \<open>n_pos\<close> rows of \<open>d\<close> entries the function returns, with the flag of
  gradient updates off, the table whose entry at position \<open>pos\<close> and index \<open>j\<close> is the sine
  of \<open>pos / 10000 ^ (2 * (j div 2) / d)\<close> for even \<open>j\<close> and its cosine for odd \<open>j\<close>.
\<close>

theorem sinusoidal_table:
  assumes "length (data out) = n_pos" and "\<forall>r\<in>set (data out). length r = d"
    and "pos < n_pos" and "j < d"
  shows "\<exists>p. create_sinusoidal_embeddings n_pos d out = Inr p \<and> \<not> requires_grad p
     \<and> data p ! pos ! j =
         (if even j then sin (real pos / 10000 powr (2 * real (j div 2) / real d))
          else cos (real pos / 10000 powr (2 * real (j div 2) / real d)))"
proof -
  have "0 < n_pos" using assms(3) by simp
  note eq = create_sinusoidal_embeddings_eq [OF assms(1,2) this]
  have "length (data out ! pos) = d" using assms(1,2,3) by simp
  moreover have "length (position_enc n_pos d ! pos) = d"
    using position_enc_rows [of n_pos d] assms(3) by (simp add: length_position_enc)
  ultimately show ?thesis
    using assms(1,3,4) row_values [of "data out ! pos" d "position_enc n_pos d ! pos" j]
    by (simp add: eq length_position_enc nth_position_enc)
qed

theorem sinusoidal_table_witness:
  "\<exists>p. create_sinusoidal_embeddings 2 3 \<lparr>data = [[0, 0, 0], [0, 0, 0]], requires_grad = True\<rparr>
          = Inr p
     \<and> requires_grad p = False
     \<and> data p ! 1 ! 2 = sin (real 1 / 10000 powr (2 * real (2 div 2) / real 3))"
  using sinusoidal_table [of "\<lparr>data = [[0, 0, 0], [0, 0, 0]], requires_grad = True\<rparr>" 2 3 1 2]
  by simp

subsection \<open>Head pruning\<close>

lemma shifted_nonneg:
  assumes "finite P" and "P \<subseteq> {0 ..< N}"
  shows "0 \<le> shifted P h \<or> h < 0"
proof (cases "h < 0")
  case False
  have "Set.filter (\<lambda>p. p < h) P \<subseteq> {0 ..< h}" using assms(2) by auto
  then have "card (Set.filter (\<lambda>p. p < h) P) \<le> card {0 ..< h}"
    by (intro card_mono) auto
  with False show ?thesis by (simp add: shifted_def)
qed simp

lemma shifted_upper:
  assumes "finite P" and "P \<subseteq> {0 ..< N}" and "h \<notin> P" and "0 \<le> h" and "h < N"
  shows "shifted P h < N - int (card P)"
proof -
  have split: "P = Set.filter (\<lambda>p. p < h) P \<union> Set.filter (\<lambda>p. h < p) P"
    using assms(3) by (fastforce simp: not_less less_le)
  have disj: "Set.filter (\<lambda>p. p < h) P \<inter> Set.filter (\<lambda>p. h < p) P = {}" by auto
  have "card P = card (Set.filter (\<lambda>p. p < h) P) + card (Set.filter (\<lambda>p. h < p) P)"
    using assms(1) disj by (subst split, subst card_Un_disjoint) auto
  moreover have "Set.filter (\<lambda>p. h < p) P \<subseteq> {h + 1 ..< N}" using assms(2) by auto
  then have "card (Set.filter (\<lambda>p. h < p) P) \<le> card {h + 1 ..< N}"
    by (intro card_mono) auto
  ultimately show ?thesis using assms(4,5) by (simp add: shifted_def)
qed

lemma shifted_mono:
  assumes "finite P" and "h1 \<notin> P" and "h1 < h2"
  shows "shifted P h1 < shifted P h2"
proof -
  have sub: "Set.filter (\<lambda>p. p < h1) P \<subseteq> Set.filter (\<lambda>p. p < h2) P" using assms(3) by auto
  have "Set.filter (\<lambda>p. p < h2) P - Set.filter (\<lambda>p. p < h1) P \<subseteq> {h1 + 1 ..< h2}"
    using assms(2) by (auto simp: less_le)
  then have "card (Set.filter (\<lambda>p. p < h2) P - Set.filter (\<lambda>p. p < h1) P) \<le> card {h1 + 1 ..< h2}"
    by (intro card_mono) auto
  moreover have "card (Set.filter (\<lambda>p. p < h2) P - Set.filter (\<lambda>p. p < h1) P)
      = card (Set.filter (\<lambda>p. p < h2) P) - card (Set.filter (\<lambda>p. p < h1) P)"
    using assms(1) sub by (intro card_Diff_subset) auto
  moreover have "card (Set.filter (\<lambda>p. p < h1) P) \<le> card (Set.filter (\<lambda>p. p < h2) P)"
    using assms(1) sub by (intro card_mono) auto
  ultimately show ?thesis using assms(3) by (simp add: shifted_def)
qed

lemma shifted_inj:
  assumes "finite P" and "H \<inter> P = {}"
  shows "inj_on (shifted P) H"
proof (rule inj_onI)
  fix x y assume "x \<in> H" "y \<in> H" and eq: "shifted P x = shifted P y"
  then have "x \<notin> P" "y \<notin> P" using assms(2) by auto
  with shifted_mono [OF assms(1), of x y] shifted_mono [OF assms(1), of y x] eq
  show "x = y" by (cases x y rule: linorder_cases) auto
qed


lemma filter_block:
  "0 < hs \<Longrightarrow> filter (\<lambda>i. int (i div hs) \<notin> R) [m * hs ..< m * hs + hs]
     = (if int m \<in> R then [] else [m * hs ..< m * hs + hs])"
proof -
  assume hs: "0 < hs"
  have "\<And>i. i \<in> set [m * hs ..< m * hs + hs] \<Longrightarrow> i div hs = m"
  proof -
    fix i assume "i \<in> set [m * hs ..< m * hs + hs]"
    then have "m * hs \<le> i" "i < (m + 1) * hs" by (auto simp: algebra_simps)
    then show "i div hs = m"
      using hs by (metis add.commute div_nat_eqI mult.commute plus_1_eq_Suc)
  qed
  then show ?thesis
    by (cases "int m \<in> R") (auto simp: filter_empty_conv filter_id_conv)
qed

lemma count_kept:
  assumes "finite R"
  shows "length (filter (\<lambda>i. int (i div hs) \<notin> R) [0 ..< m * hs])
       = (m - card (R \<inter> {0 ..< int m})) * hs"
proof (cases "hs = 0")
  case True
  then show ?thesis by simp
next
  case False
  then have hs: "0 < hs" by simp
  show ?thesis
  proof (induction m)
    case 0
    then show ?case by simp
  next
    case (Suc m)
    have le: "card (R \<inter> {0 ..< int m}) \<le> m"
    proof -
      have "card (R \<inter> {0 ..< int m}) \<le> card {0 ..< int m}" by (intro card_mono) auto
      then show ?thesis by simp
    qed
    have app: "[0 ..< Suc m * hs] = [0 ..< m * hs] @ [m * hs ..< m * hs + hs]"
      using upt_add_eq_append [of 0 "m * hs" hs] by (simp add: add.commute)
    have len: "length (filter (\<lambda>i. int (i div hs) \<notin> R) [0 ..< Suc m * hs])
        = (m - card (R \<inter> {0 ..< int m})) * hs
          + length (filter (\<lambda>i. int (i div hs) \<notin> R) [m * hs ..< m * hs + hs])"
      unfolding app filter_append length_append Suc.IH ..
    show ?case
    proof (cases "int m \<in> R")
      case True
      then have "R \<inter> {0 ..< int (Suc m)} = insert (int m) (R \<inter> {0 ..< int m})"
        by auto
      then have "card (R \<inter> {0 ..< int (Suc m)}) = Suc (card (R \<inter> {0 ..< int m}))"
        using assms by simp
      with True show ?thesis
        unfolding len filter_block [OF hs] by simp
    next
      case False
      then have "R \<inter> {0 ..< int (Suc m)} = R \<inter> {0 ..< int m}"
        by (auto simp: less_le)
      then have c: "card (R \<inter> {0 ..< int (Suc m)}) = card (R \<inter> {0 ..< int m})"
        by simp
      have "Suc m - card (R \<inter> {0 ..< int m}) = Suc (m - card (R \<inter> {0 ..< int m}))"
        using le by (rule Suc_diff_le)
      with False show ?thesis
        unfolding len filter_block [OF hs] c by simp
    qed
  qed
qed

lemma find_pruneable_ok:
  assumes fin: "finite P" and sub: "P \<subseteq> {0 ..< n + int (card P)}"
    and n: "0 \<le> n" and hs: "0 \<le> hs" and hd: "set heads \<subseteq> {0 ..< n + int (card P)}"
  shows "\<exists>index. find_pruneable_heads_and_indices heads n hs P = Inr (set heads - P, index)
     \<and> list_all (\<lambda>i. i < nat (n * hs)) index
     \<and> int (card (set heads - P)) \<le> n
     \<and> length index = nat ((n - int (card (set heads - P))) * hs)
     \<and> (set heads \<subseteq> P \<longrightarrow> index = [0 ..< nat (n * hs)])"
proof -
  let ?H = "set heads - P" and ?N = "n + int (card P)"
  define rows where "rows = shifted P ` ?H"
  have range: "0 \<le> r \<and> r < n" if "r \<in> rows" for r
  proof -
    from that obtain h where h: "h \<in> set heads" "h \<notin> P" and r: "r = shifted P h"
      by (auto simp: rows_def)
    then have h0: "0 \<le> h" "h < ?N" using hd by auto
    from shifted_nonneg [OF fin sub, of h] h0 have "0 \<le> shifted P h" by simp
    moreover from shifted_upper [OF fin sub h(2) h0] have "shifted P h < n" by simp
    ultimately show ?thesis using r by simp
  qed
  have pt: "(if r < 0 then r + n else r) = r" if "r \<in> rows" for r
    using range [OF that] by simp
  have "(\<lambda>r. if r < 0 then r + n else r) ` rows = (\<lambda>r. r) ` rows"
    by (rule image_cong [OF refl]) (rule pt)
  then have norm: "(\<lambda>r. if r < 0 then r + n else r) ` rows = rows"
    by simp
  have noerr: "\<not> (\<exists>r\<in>rows. r < - n \<or> n \<le> r)"
    using range n by fastforce
  have inj: "inj_on (shifted P) ?H" using fin by (intro shifted_inj) auto
  have card_rows: "card rows = card ?H" unfolding rows_def using inj by (rule card_image)
  have rows_sub: "rows \<subseteq> {0 ..< n}" using range by auto
  then have "card rows \<le> card {0 ..< n}" by (intro card_mono) auto
  then have card_le: "int (card ?H) \<le> n" using n by (simp add: card_rows)
  have inter: "rows \<inter> {0 ..< n} = rows" using rows_sub by auto
  have nn: "int (nat n) = n" using n by simp
  define index where "index = filter (\<lambda>i. int (i div nat hs) \<notin> rows) [0 ..< nat n * nat hs]"
  have nm: "nat (n * hs) = nat n * nat hs" using n by (simp add: nat_mult_distrib)
  have neg: "\<not> (n < 0 \<or> hs < 0)" using n hs by simp
  have eq: "find_pruneable_heads_and_indices heads n hs P = Inr (?H, index)"
    unfolding find_pruneable_heads_and_indices_def Let_def rows_def [symmetric]
    by (simp only: neg noerr norm nm if_False index_def)
  have fr: "finite rows" unfolding rows_def by simp
  have len: "length index = (nat n - card ?H) * nat hs"
    using count_kept [OF fr, of "nat hs" "nat n"] unfolding nn inter card_rows index_def .
  have len': "length index = nat ((n - int (card ?H)) * hs)"
    using card_le n hs by (simp add: len nat_mult_distrib nat_diff_distrib')
  have all: "list_all (\<lambda>i. i < nat (n * hs)) index"
    by (auto simp: list_all_iff nm index_def)
  have full: "set heads \<subseteq> P \<longrightarrow> index = [0 ..< nat (n * hs)]"
  proof
    assume "set heads \<subseteq> P"
    then have "rows = {}" by (auto simp: rows_def)
    then show "index = [0 ..< nat (n * hs)]" by (simp add: nm index_def)
  qed
  from eq all card_le len' full show ?thesis by blast
qed

lemma prune_rows_ok:
  assumes "wf_linear l" and "list_all (\<lambda>i. i < out_features l) index"
  shows "\<exists>l'. prune_linear_layer l index 0 = Inr l' \<and> wf_linear l'
     \<and> out_features l' = length index \<and> in_features l' = in_features l"
proof -
  let ?l = "\<lparr>weight = map (\<lambda>i. weight l ! i) index,
             bias = map_option (\<lambda>b. map (\<lambda>i. b ! i) index) (bias l),
             in_features = in_features l, out_features = length index\<rparr>"
  have eq: "prune_linear_layer l index 0 = Inr ?l"
    using assms(2) by (simp add: prune_linear_layer_def)
  have "\<And>i. i \<in> set index \<Longrightarrow> length (weight l ! i) = in_features l"
    using assms by (simp add: wf_linear_def list_all_iff)
  then have "wf_linear ?l"
    by (cases "bias l") (simp_all add: wf_linear_def list_all_iff)
  with eq show ?thesis by simp
qed

lemma prune_cols_ok:
  assumes "wf_linear l" and "list_all (\<lambda>i. i < in_features l) index"
  shows "\<exists>l'. prune_linear_layer l index (Suc 0) = Inr l' \<and> wf_linear l'
     \<and> in_features l' = length index \<and> out_features l' = out_features l"
proof -
  let ?l = "\<lparr>weight = map (\<lambda>r. map (\<lambda>i. r ! i) index) (weight l), bias = bias l,
             in_features = length index, out_features = out_features l\<rparr>"
  have eq: "prune_linear_layer l index (Suc 0) = Inr ?l"
    using assms(2) by (simp add: prune_linear_layer_def)
  have "wf_linear ?l"
    using assms(1) by (cases "bias l") (simp_all add: wf_linear_def list_all_iff)
  with eq show ?thesis by simp
qed

lemma prune_rows_all:
  assumes "wf_linear l"
  shows "prune_linear_layer l [0 ..< out_features l] 0 = Inr l"
proof -
  have "map (\<lambda>i. weight l ! i) [0 ..< out_features l] = weight l"
    using assms by (auto simp: wf_linear_def intro: nth_equalityI)
  moreover have "map_option (\<lambda>b. map (\<lambda>i. b ! i) [0 ..< out_features l]) (bias l) = bias l"
    using assms by (cases "bias l") (auto simp: wf_linear_def intro: nth_equalityI)
  ultimately show ?thesis
    by (simp add: prune_linear_layer_def list_all_iff)
qed

lemma prune_cols_all:
  assumes "wf_linear l"
  shows "prune_linear_layer l [0 ..< in_features l] (Suc 0) = Inr l"
proof -
  have "\<And>r. r \<in> set (weight l) \<Longrightarrow> map (\<lambda>i. r ! i) [0 ..< in_features l] = r"
    using assms by (auto simp: wf_linear_def list_all_iff intro: nth_equalityI)
  then have "map (\<lambda>r. map (\<lambda>i. r ! i) [0 ..< in_features l]) (weight l) = weight l"
    by (simp add: map_idI)
  then show ?thesis
    by (simp add: prune_linear_layer_def list_all_iff)
qed


lemma prune_heads_step:
  assumes wf: "wf_attention a" and n: "0 < num_attention_heads a"
    and valid: "valid_heads a heads" and ne: "heads \<noteq> []"
  shows "\<exists>q k v ol.
     prune_heads a heads =
       (a\<lparr>q_lin := q, k_lin := k, v_lin := v, out_lin := ol,
          num_attention_heads := num_attention_heads a - int (card (set heads - pruned_heads a)),
          dim' := dim' a div num_attention_heads a
                    * (num_attention_heads a - int (card (set heads - pruned_heads a))),
          pruned_heads := pruned_heads a \<union> (set heads - pruned_heads a)\<rparr>, None)
     \<and> wf_linear q \<and> wf_linear k \<and> wf_linear v \<and> wf_linear ol
     \<and> out_features q = nat (dim' a div num_attention_heads a
                    * (num_attention_heads a - int (card (set heads - pruned_heads a))))
     \<and> out_features k = out_features q \<and> out_features v = out_features q
     \<and> in_features ol = out_features q
     \<and> int (card (set heads - pruned_heads a)) \<le> num_attention_heads a"
proof -
  let ?n = "num_attention_heads a" and ?P = "pruned_heads a"
  let ?hs = "dim' a div ?n" and ?H = "set heads - pruned_heads a"
  have hs: "0 \<le> ?hs" using wf n by (simp add: wf_attention_def pos_imp_zdiv_nonneg_iff)
  have dim_eq: "dim' a = ?n * ?hs" using wf by (auto simp: wf_attention_def)
  from wf have fin: "finite ?P" and sub: "?P \<subseteq> {0 ..< ?n + int (card ?P)}"
    by (simp_all add: wf_attention_def)
  from valid have hd: "set heads \<subseteq> {0 ..< ?n + int (card ?P)}"
    by (simp add: valid_heads_def)
  from find_pruneable_ok [OF fin sub _ hs hd] n obtain index where
    fp: "find_pruneable_heads_and_indices heads ?n ?hs ?P = Inr (?H, index)" and
    all: "list_all (\<lambda>i. i < nat (?n * ?hs)) index" and
    card_le: "int (card ?H) \<le> ?n" and
    len: "length index = nat ((?n - int (card ?H)) * ?hs)"
    by auto
  have all': "list_all (\<lambda>i. i < nat (dim' a)) index" using all dim_eq by simp
  from wf have wq: "wf_linear (q_lin a)" "out_features (q_lin a) = nat (dim' a)"
    and wk: "wf_linear (k_lin a)" "out_features (k_lin a) = nat (dim' a)"
    and wv: "wf_linear (v_lin a)" "out_features (v_lin a) = nat (dim' a)"
    and wo: "wf_linear (out_lin a)" "in_features (out_lin a) = nat (dim' a)"
    by (simp_all add: wf_attention_def)
  from prune_rows_ok [OF wq(1)] all' wq(2) obtain q where
    q: "prune_linear_layer (q_lin a) index 0 = Inr q" "wf_linear q" "out_features q = length index"
    by auto
  from prune_rows_ok [OF wk(1)] all' wk(2) obtain k where
    k: "prune_linear_layer (k_lin a) index 0 = Inr k" "wf_linear k" "out_features k = length index"
    by auto
  from prune_rows_ok [OF wv(1)] all' wv(2) obtain v where
    v: "prune_linear_layer (v_lin a) index 0 = Inr v" "wf_linear v" "out_features v = length index"
    by auto
  from prune_cols_ok [OF wo(1)] all' wo(2) obtain ol where
    ol: "prune_linear_layer (out_lin a) index (Suc 0) = Inr ol" "wf_linear ol"
      "in_features ol = length index"
    by auto
  have len': "length index = nat (?hs * (?n - int (card ?H)))"
    using len by (simp add: mult.commute)
  have "prune_heads a heads =
       (a\<lparr>q_lin := q, k_lin := k, v_lin := v, out_lin := ol,
          num_attention_heads := ?n - int (card ?H),
          dim' := ?hs * (?n - int (card ?H)),
          pruned_heads := ?P \<union> ?H\<rparr>, None)"
    using n ne by (simp add: prune_heads_def Let_def fp q(1) k(1) v(1) ol(1))
  with q k v ol len' card_le show ?thesis
    by (intro exI [of _ q] exI [of _ k] exI [of _ v] exI [of _ ol]) simp
qed


lemma prune_heads_wf:
  assumes wf: "wf_attention a" and n: "0 < num_attention_heads a"
    and valid: "valid_heads a heads"
  shows "snd (prune_heads a heads) = None \<and> wf_attention (fst (prune_heads a heads))
     \<and> (heads \<noteq> [] \<longrightarrow> set heads \<subseteq> pruned_heads (fst (prune_heads a heads)))
     \<and> valid_heads (fst (prune_heads a heads)) heads"
proof (cases "heads = []")
  case True
  with wf n valid show ?thesis by (simp add: prune_heads_def Let_def valid_heads_def)
next
  case False
  let ?n = "num_attention_heads a" and ?P = "pruned_heads a"
  let ?hs = "dim' a div ?n" and ?H = "set heads - pruned_heads a"
  from prune_heads_step [OF wf n valid False] obtain q k v ol where
    eq: "prune_heads a heads =
       (a\<lparr>q_lin := q, k_lin := k, v_lin := v, out_lin := ol,
          num_attention_heads := ?n - int (card ?H), dim' := ?hs * (?n - int (card ?H)),
          pruned_heads := ?P \<union> ?H\<rparr>, None)" and
    w: "wf_linear q" "wf_linear k" "wf_linear v" "wf_linear ol" and
    f: "out_features q = nat (?hs * (?n - int (card ?H)))" "out_features k = out_features q"
       "out_features v = out_features q" "in_features ol = out_features q" and
    card_le: "int (card ?H) \<le> ?n"
    by blast
  have hs: "0 \<le> ?hs" using wf n by (simp add: wf_attention_def pos_imp_zdiv_nonneg_iff)
  from wf have fin: "finite ?P" and sub: "?P \<subseteq> {0 ..< ?n + int (card ?P)}"
    by (simp_all add: wf_attention_def)
  have un: "?P \<union> ?H = ?P \<union> set heads" by auto
  have "card (?P \<union> ?H) = card ?P + card ?H"
    using fin by (intro card_Un_disjoint) auto
  then have card_un: "card (?P \<union> set heads) = card ?P + card ?H"
    unfolding un .
  have total: "?n - int (card ?H) + int (card (?P \<union> set heads)) = ?n + int (card ?P)"
    unfolding card_un by simp
  from valid have hd: "set heads \<subseteq> {0 ..< ?n + int (card ?P)}"
    by (simp add: valid_heads_def)
  have sub': "?P \<union> set heads \<subseteq> {0 ..< ?n - int (card ?H) + int (card (?P \<union> set heads))}"
    unfolding total using sub hd by auto
  have "wf_attention (fst (prune_heads a heads))"
    using w f card_le hs fin sub' by (simp add: eq wf_attention_def)
  moreover have "valid_heads (fst (prune_heads a heads)) heads"
    using hd by (simp add: eq valid_heads_def total)
  ultimately show ?thesis by (auto simp: eq)
qed

lemma prune_heads_again:
  assumes wf: "wf_attention a" and sub: "heads = [] \<or> set heads \<subseteq> pruned_heads a"
  shows "fst (prune_heads a heads) = a"
proof (cases "num_attention_heads a = 0 \<or> heads = []")
  case True
  then show ?thesis by (auto simp: prune_heads_def Let_def)
next
  case False
  let ?n = "num_attention_heads a" and ?P = "pruned_heads a"
  let ?hs = "dim' a div ?n"
  from False wf have n: "0 < ?n" by (simp add: wf_attention_def)
  from False sub have hp: "set heads \<subseteq> ?P" by simp
  then have H: "set heads - ?P = {}" by auto
  have hs: "0 \<le> ?hs" using wf n by (simp add: wf_attention_def pos_imp_zdiv_nonneg_iff)
  have dim_eq: "dim' a = ?n * ?hs" using wf by (auto simp: wf_attention_def)
  from wf have fin: "finite ?P" and subP: "?P \<subseteq> {0 ..< ?n + int (card ?P)}"
    by (simp_all add: wf_attention_def)
  have hd: "set heads \<subseteq> {0 ..< ?n + int (card ?P)}" using hp subP by blast
  from find_pruneable_ok [OF fin subP _ hs hd] n hp have
    fp: "find_pruneable_heads_and_indices heads ?n ?hs ?P = Inr ({}, [0 ..< nat (dim' a)])"
    using dim_eq H by auto
  from wf have wq: "wf_linear (q_lin a)" "out_features (q_lin a) = nat (dim' a)"
    and wk: "wf_linear (k_lin a)" "out_features (k_lin a) = nat (dim' a)"
    and wv: "wf_linear (v_lin a)" "out_features (v_lin a) = nat (dim' a)"
    and wo: "wf_linear (out_lin a)" "in_features (out_lin a) = nat (dim' a)"
    by (simp_all add: wf_attention_def)
  have p: "prune_linear_layer (q_lin a) [0 ..< nat (dim' a)] 0 = Inr (q_lin a)"
    "prune_linear_layer (k_lin a) [0 ..< nat (dim' a)] 0 = Inr (k_lin a)"
    "prune_linear_layer (v_lin a) [0 ..< nat (dim' a)] 0 = Inr (v_lin a)"
    "prune_linear_layer (out_lin a) [0 ..< nat (dim' a)] (Suc 0) = Inr (out_lin a)"
    using prune_rows_all [OF wq(1)] prune_rows_all [OF wk(1)] prune_rows_all [OF wv(1)]
      prune_cols_all [OF wo(1)] wq(2) wk(2) wv(2) wo(2)
    by simp_all
  have "dim' a div ?n * ?n = dim' a" by (metis dim_eq mult.commute)
  then show ?thesis
    using False by (simp add: prune_heads_def Let_def fp p)
qed


text \<open>
  C5. On a module with heads left, pruning a valid set of heads none of which is pruned
  yet succeeds; the head count drops by the size of the set and the width becomes the old
  width times the new head count over the old one, exactly.
\<close>

theorem prune_heads_width:
  assumes "wf_attention a" and "0 < num_attention_heads a" and "valid_heads a heads"
    and "set heads \<inter> pruned_heads a = {}"
  shows "snd (prune_heads a heads) = None
     \<and> num_attention_heads (fst (prune_heads a heads))
         = num_attention_heads a - int (card (set heads))
     \<and> real_of_int (dim' (fst (prune_heads a heads)))
         = real_of_int (dim' a) * real_of_int (num_attention_heads a - int (card (set heads)))
             / real_of_int (num_attention_heads a)"
proof (cases "heads = []")
  case True
  with assms(2) show ?thesis by (simp add: prune_heads_def Let_def)
next
  case False
  let ?n = "num_attention_heads a"
  have H: "set heads - pruned_heads a = set heads" using assms(4) by auto
  from prune_heads_step [OF assms(1,2,3) False] obtain q k v ol where
    eq: "prune_heads a heads =
       (a\<lparr>q_lin := q, k_lin := k, v_lin := v, out_lin := ol,
          num_attention_heads := ?n - int (card (set heads)),
          dim' := dim' a div ?n * (?n - int (card (set heads))),
          pruned_heads := pruned_heads a \<union> set heads\<rparr>, None)"
    unfolding H by blast
  have "dim' a = ?n * (dim' a div ?n)" using assms(1) by (auto simp: wf_attention_def)
  then have "real_of_int (dim' a) = real_of_int ?n * real_of_int (dim' a div ?n)"
    by (metis of_int_mult)
  then have "real_of_int (dim' a div ?n) = real_of_int (dim' a) / real_of_int ?n"
    using assms(2) by (simp add: field_simps)
  then show ?thesis by (simp add: eq)
qed

theorem prune_heads_width_witness:
  "snd (prune_heads toy_attention [0]) = None
   \<and> num_attention_heads (fst (prune_heads toy_attention [0])) = 2 - int (card (set [0 :: int]))
   \<and> real_of_int (dim' (fst (prune_heads toy_attention [0])))
       = real_of_int 2 * real_of_int (2 - int (card (set [0 :: int]))) / real_of_int 2"
proof -
  have "wf_attention toy_attention"
    by (simp add: wf_attention_def wf_linear_def toy_attention_def toy_linear_def)
  moreover have "0 < num_attention_heads toy_attention" by (simp add: toy_attention_def)
  moreover have "valid_heads toy_attention [0]" by (simp add: valid_heads_def toy_attention_def)
  moreover have "set [0] \<inter> pruned_heads toy_attention = {}" by (simp add: toy_attention_def)
  ultimately show ?thesis
    using prune_heads_width [of toy_attention "[0]"] by (simp add: toy_attention_def)
qed

text \<open>
  C4. Pruning a valid head set and pruning it again leaves the set of pruned heads, the
  head count, the width and the shapes of the four projections as the first call left
  them; the whole module is unchanged.
\<close>

theorem prune_heads_idempotent:
  assumes "wf_attention a" and "valid_heads a heads"
  shows "pruned_heads (fst (prune_heads (fst (prune_heads a heads)) heads))
           = pruned_heads (fst (prune_heads a heads))
     \<and> num_attention_heads (fst (prune_heads (fst (prune_heads a heads)) heads))
           = num_attention_heads (fst (prune_heads a heads))
     \<and> dim' (fst (prune_heads (fst (prune_heads a heads)) heads))
           = dim' (fst (prune_heads a heads))
     \<and> shape (q_lin (fst (prune_heads (fst (prune_heads a heads)) heads)))
           = shape (q_lin (fst (prune_heads a heads)))
     \<and> shape (k_lin (fst (prune_heads (fst (prune_heads a heads)) heads)))
           = shape (k_lin (fst (prune_heads a heads)))
     \<and> shape (v_lin (fst (prune_heads (fst (prune_heads a heads)) heads)))
           = shape (v_lin (fst (prune_heads a heads)))
     \<and> shape (out_lin (fst (prune_heads (fst (prune_heads a heads)) heads)))
           = shape (out_lin (fst (prune_heads a heads)))
     \<and> fst (prune_heads (fst (prune_heads a heads)) heads) = fst (prune_heads a heads)"
proof -
  have "fst (prune_heads (fst (prune_heads a heads)) heads) = fst (prune_heads a heads)"
  proof (cases "num_attention_heads a = 0")
    case True
    then show ?thesis by (simp add: prune_heads_def)
  next
    case False
    with assms(1) have "0 < num_attention_heads a" by (simp add: wf_attention_def)
    from prune_heads_wf [OF assms(1) this assms(2)] show ?thesis
      by (intro prune_heads_again) auto
  qed
  then show ?thesis by simp
qed

theorem prune_heads_idempotent_witness:
  "fst (prune_heads toy_attention [0]) =
     \<lparr>num_attention_heads = 1, dim' = 1,
      q_lin = \<lparr>weight = [[3, 4]], bias = Some [6], in_features = 2, out_features = 1\<rparr>,
      k_lin = \<lparr>weight = [[3, 4]], bias = Some [6], in_features = 2, out_features = 1\<rparr>,
      v_lin = \<lparr>weight = [[3, 4]], bias = Some [6], in_features = 2, out_features = 1\<rparr>,
      out_lin = \<lparr>weight = [[2], [4]], bias = Some [5, 6], in_features = 1, out_features = 2\<rparr>,
      pruned_heads = {0}\<rparr>
   \<and> fst (prune_heads (fst (prune_heads toy_attention [0])) [0]) = fst (prune_heads toy_attention [0])"
proof -
  have wf: "wf_attention toy_attention"
    by (simp add: wf_attention_def wf_linear_def toy_attention_def toy_linear_def)
  have v: "valid_heads toy_attention [0]" by (simp add: valid_heads_def toy_attention_def)
  have "fst (prune_heads toy_attention [0]) =
     \<lparr>num_attention_heads = 1, dim' = 1,
      q_lin = \<lparr>weight = [[3, 4]], bias = Some [6], in_features = 2, out_features = 1\<rparr>,
      k_lin = \<lparr>weight = [[3, 4]], bias = Some [6], in_features = 2, out_features = 1\<rparr>,
      v_lin = \<lparr>weight = [[3, 4]], bias = Some [6], in_features = 2, out_features = 1\<rparr>,
      out_lin = \<lparr>weight = [[2], [4]], bias = Some [5, 6], in_features = 1, out_features = 2\<rparr>,
      pruned_heads = {0}\<rparr>"
    by (simp add: prune_heads_def find_pruneable_heads_and_indices_def shifted_def
        prune_linear_layer_def toy_attention_def toy_linear_def Let_def upt_rec)
  with prune_heads_idempotent [OF wf v] show ?thesis by simp
qed

end
